theory Spec2Isabelle
  imports Main "HOL-Library.Sublist"
begin

section \<open>The conference calendar of public/js/calendar.js\<close>

text \<open>
  The class \<^verbatim>\<open>ConferenceCalendar\<close> filters a list of conference records by theme and
  search text, generates a 24-month fiscal window, and sorts the deadlines of each
  conference into the month columns of that window. This theory embeds those methods
  as HOL functions and proves what the specification says about them.

  JavaScript values are modelled by the types the data model of the specification
  gives them. A property that the code tests for presence (\<^verbatim>\<open>if (x.f)\<close>,
  \<^verbatim>\<open>x.f || ''\<close>, \<^verbatim>\<open>Array.isArray(x.f)\<close>) is an \<open>option\<close>: \<open>None\<close> is
  \<^verbatim>\<open>undefined\<close>. On values of these types no operation of the embedded methods
  throws, so the functions below are total and return plain values; the one
  error value that flows through them is the Invalid Date, whose getters return NaN.
\<close>

subsection \<open>Strings\<close>

text \<open>
  A string is a list of code units. The type \<open>char\<close> holds the code units below 256
  (Basic Latin and Latin-1); on that range the character classes of the regular
  expression, \<^verbatim>\<open>trim\<close> and \<^verbatim>\<open>toLowerCase\<close> are as ECMAScript defines them.
\<close>

definition isDigit :: "char \<Rightarrow> bool" where
  \<comment> \<open>the class \<^verbatim>\<open>\d\<close>\<close>
  "isDigit c = (c \<in> set ''0123456789'')"

definition isWhiteSpace :: "char \<Rightarrow> bool" where
  \<comment> \<open>the class \<^verbatim>\<open>\s\<close>, which is also what \<^verbatim>\<open>trim\<close> removes: TAB, LF, VT, FF, CR,
      SPACE and NO-BREAK SPACE\<close>
  "isWhiteSpace c =
     (c \<in> {CHR 0x09, CHR 0x0A, CHR 0x0B, CHR 0x0C, CHR 0x0D, CHR 0x20, CHR 0xA0})"

definition isDotOrSpace :: "char \<Rightarrow> bool" where
  \<comment> \<open>the class \<^verbatim>\<open>[\.\s]\<close>\<close>
  "isDotOrSpace c = (c = CHR ''.'' \<or> isWhiteSpace c)"

definition isUpper :: "char \<Rightarrow> bool" where
  \<comment> \<open>the code units below 256 that \<^verbatim>\<open>toLowerCase\<close> changes: A-Z and the Latin-1
      capitals U+00C0-U+00DE without the multiplication sign U+00D7\<close>
  "isUpper c =
     (let n = (of_char c :: nat)
      in (65 \<le> n \<and> n \<le> 90) \<or> (192 \<le> n \<and> n \<le> 222 \<and> n \<noteq> 215))"

definition toLowerChar :: "char \<Rightarrow> char" where
  \<comment> \<open>the lower-case letter is 32 code points up: bit 5 is set\<close>
  "toLowerChar c =
     (if isUpper c
      then (case c of Char b0 b1 b2 b3 b4 b5 b6 b7 \<Rightarrow> Char b0 b1 b2 b3 b4 True b6 b7)
      else c)"

definition toLowerCase :: "string \<Rightarrow> string" where
  "toLowerCase s = map toLowerChar s"

fun includes_str :: "string \<Rightarrow> string \<Rightarrow> bool" where
  \<comment> \<open>\<^verbatim>\<open>hay.includes(needle)\<close>: the needle starts at some position of the hay\<close>
  "includes_str [] needle = (needle = [])"
| "includes_str (c # cs) needle = (prefix needle (c # cs) \<or> includes_str cs needle)"

definition trim :: "string \<Rightarrow> string" where
  "trim s = rev (dropWhile isWhiteSpace (rev (dropWhile isWhiteSpace s)))"

definition orEmpty :: "string option \<Rightarrow> string" where
  \<comment> \<open>\<^verbatim>\<open>(x || '')\<close> for a string or \<^verbatim>\<open>undefined\<close>\<close>
  "orEmpty x = (case x of None \<Rightarrow> [] | Some s \<Rightarrow> s)"

definition truthy :: "string option \<Rightarrow> bool" where
  \<comment> \<open>\<^verbatim>\<open>if (x)\<close> for a string or \<^verbatim>\<open>undefined\<close>: the empty string is falsy\<close>
  "truthy x = (case x of None \<Rightarrow> False | Some s \<Rightarrow> s \<noteq> [])"

subsection \<open>stripThemePrefix\<close>

text \<open>
  \<^verbatim>\<open>
  stripThemePrefix(theme) {
      if (!theme) return theme;
      return theme.replace(/^\d+[\.\s]+/, '').trim();
  }
  \<close>
  The regular expression is anchored at the start and both of its parts are greedy.
  The two character classes are disjoint, so it matches exactly when the longest run
  of digits at the start is not empty and is followed by at least one dot or white
  space; the match then takes every dot and white space that follows.
\<close>

definition replaceNumberPrefix :: "string \<Rightarrow> string" where
  \<comment> \<open>\<^verbatim>\<open>theme.replace(/^\d+[\.\s]+/, '')\<close>\<close>
  "replaceNumberPrefix s =
     (let rest = dropWhile isDigit s
      in if takeWhile isDigit s \<noteq> [] \<and> takeWhile isDotOrSpace rest \<noteq> []
         then dropWhile isDotOrSpace rest
         else s)"

definition stripThemePrefix :: "string option \<Rightarrow> string option" where
  "stripThemePrefix theme =
     (if \<not> truthy theme then theme
      else Some (trim (replaceNumberPrefix (orEmpty theme))))"

text \<open>
  The words of the specification: a theme has a numeric prefix when it starts with
  digits followed by a dot and/or spaces.
\<close>

definition hasNumericPrefix :: "string \<Rightarrow> bool" where
  "hasNumericPrefix s =
     (\<exists>ds seps rest. s = ds @ seps @ rest \<and> ds \<noteq> [] \<and> list_all isDigit ds
        \<and> seps \<noteq> [] \<and> list_all isDotOrSpace seps)"

definition noOuterSpace :: "string \<Rightarrow> bool" where
  \<comment> \<open>the string neither starts nor ends with white space\<close>
  "noOuterSpace s = (s = [] \<or> (\<not> isWhiteSpace (hd s) \<and> \<not> isWhiteSpace (last s)))"

subsection \<open>Numbers as text\<close>

fun digitsNat :: "nat \<Rightarrow> string" where
  "digitsNat n =
     (if n < 10 then [''0123456789'' ! n]
      else digitsNat (n div 10) @ [''0123456789'' ! (n mod 10)])"

declare digitsNat.simps [simp del]

definition numberToString :: "int \<Rightarrow> string" where
  \<comment> \<open>\<^verbatim>\<open>String(n)\<close> and \<^verbatim>\<open>${n}\<close> for an integer\<close>
  "numberToString n = (if n < 0 then CHR ''-'' # digitsNat (nat (- n)) else digitsNat (nat n))"

definition formatNumber :: "int option \<Rightarrow> string" where
  \<comment> \<open>\<^verbatim>\<open>${x}\<close> for the result of a Date getter: \<open>None\<close> is NaN\<close>
  "formatNumber x = (case x of None \<Rightarrow> ''NaN'' | Some n \<Rightarrow> numberToString n)"

definition padStart :: "nat \<Rightarrow> char \<Rightarrow> string \<Rightarrow> string" where
  \<comment> \<open>\<^verbatim>\<open>s.padStart(n, c)\<close> with a pad string of one character\<close>
  "padStart n c s = replicate (n - length s) c @ s"

subsection \<open>Dates\<close>

text \<open>
  A valid Date object is modelled by what its local-time getters return:
  \<^verbatim>\<open>getFullYear()\<close>, \<^verbatim>\<open>getMonth()\<close> (0 to 11) and \<^verbatim>\<open>getDate()\<close> (1 to 31).
  An Invalid Date is \<open>None\<close>, and a getter called on it returns NaN, again \<open>None\<close>.
  The time of day is never read by the code and is left out.
\<close>

record jsdate =
  fullYear :: int
  monthIndex :: int
  dayOfMonth :: int

definition getFullYear :: "jsdate option \<Rightarrow> int option" where
  "getFullYear d = map_option fullYear d"

definition getMonth :: "jsdate option \<Rightarrow> int option" where
  "getMonth d = map_option monthIndex d"

definition getDate :: "jsdate option \<Rightarrow> int option" where
  "getDate d = map_option dayOfMonth d"

definition isLeapYear :: "int \<Rightarrow> bool" where
  "isLeapYear y = (y mod 4 = 0 \<and> (y mod 100 \<noteq> 0 \<or> y mod 400 = 0))"

definition daysInMonth :: "int \<Rightarrow> int \<Rightarrow> int" where
  \<comment> \<open>the length of month \<open>m\<close> (0 to 11) of year \<open>y\<close>\<close>
  "daysInMonth y m =
     (if m = 1 then (if isLeapYear y then 29 else 28)
      else if m = 3 \<or> m = 5 \<or> m = 8 \<or> m = 10 then 30
      else 31)"

text \<open>
  The constructor \<^verbatim>\<open>new Date(year, month, day)\<close> takes local-time fields: a year from
  0 to 99 means 1900 + year, the month may lie outside 0 to 11 and carries into the
  year, and a day outside the month carries into the neighbouring months. Reading the
  object back through the local-time getters gives the normalised fields. (Time values
  are limited to 100 million days around 1970, the years -271821 to 275760; the model
  has no such limit.)
\<close>

function normalizeDay :: "int \<Rightarrow> int \<Rightarrow> int \<Rightarrow> jsdate" where
  "normalizeDay y m d =
     (if d < 1 then
        (let y' = (if m = 0 then y - 1 else y); m' = (if m = 0 then 11 else m - 1)
         in normalizeDay y' m' (d + daysInMonth y' m'))
      else if daysInMonth y m < d then
        normalizeDay (if m = 11 then y + 1 else y) (if m = 11 then 0 else m + 1)
          (d - daysInMonth y m)
      else \<lparr>fullYear = y, monthIndex = m, dayOfMonth = d\<rparr>)"
  by pat_completeness auto
termination
  by (relation "measure (\<lambda>(y, m, d). if d < 1 then nat (1 - d) + 31 else nat d)")
    (auto simp: daysInMonth_def Let_def)

declare normalizeDay.simps [simp del]

definition newDateYMD :: "int \<Rightarrow> int \<Rightarrow> int \<Rightarrow> jsdate" where
  "newDateYMD year month day =
     (let yr = (if 0 \<le> year \<and> year \<le> 99 then 1900 + year else year)
      in normalizeDay (yr + month div 12) (month mod 12) day)"

text \<open>
  The constructor \<^verbatim>\<open>new Date(string)\<close> is a parameter of the model, of type
  \<open>dateParser\<close>: what the engine's parser reads from the string, seen through the
  local-time getters. \<^verbatim>\<open>new Date(undefined)\<close> is an Invalid Date.
\<close>

type_synonym dateParser = "string \<Rightarrow> jsdate option"

definition newDateOf :: "dateParser \<Rightarrow> string option \<Rightarrow> jsdate option" where
  "newDateOf newDate x = (case x of None \<Rightarrow> None | Some s \<Rightarrow> newDate s)"

text \<open>
  One parser, for the worked examples: the date-only form \<^verbatim>\<open>YYYY-MM-DD\<close> of
  ECMAScript's date-time string format, which the dataset uses. ECMAScript reads a
  date-only string as midnight UTC, and the getters read local time, which is UTC plus
  the offset \<open>tz\<close> of the browser's time zone (in minutes; the offsets of the zones in
  use lie between -12:00 and +14:00). At midnight UTC the local calendar day is the same
  day when the offset is zero or positive and the day before when it is negative.
  Every other string is an Invalid Date here: this parser says nothing about the
  date-time forms or the formats an engine accepts beyond the standard, and it rejects a
  day beyond the month's length, where engines differ.
\<close>

definition digitValue :: "char \<Rightarrow> int" where
  "digitValue c = int (of_char c) - 48"

fun parseDateOnly :: "string \<Rightarrow> jsdate option" where
  "parseDateOnly [y1, y2, y3, y4, s1, m1, m2, s2, d1, d2] =
     (if s1 = CHR ''-'' \<and> s2 = CHR ''-'' \<and> list_all isDigit [y1, y2, y3, y4, m1, m2, d1, d2]
      then
        (let y = 1000 * digitValue y1 + 100 * digitValue y2 + 10 * digitValue y3 + digitValue y4;
             m = 10 * digitValue m1 + digitValue m2;
             d = 10 * digitValue d1 + digitValue d2
         in if 1 \<le> m \<and> m \<le> 12 \<and> 1 \<le> d \<and> d \<le> daysInMonth y (m - 1)
            then Some \<lparr>fullYear = y, monthIndex = m - 1, dayOfMonth = d\<rparr>
            else None)
      else None)"
| "parseDateOnly _ = None"

definition isoDateParser :: "int \<Rightarrow> dateParser" where
  "isoDateParser tz s =
     (case parseDateOnly s of
        None \<Rightarrow> None
      | Some utc \<Rightarrow>
          Some (if tz < 0
                then normalizeDay (fullYear utc) (monthIndex utc) (dayOfMonth utc - 1)
                else utc))"

subsection \<open>The data model\<close>

text \<open>
  The records of the JSON feed, with the fields the code reads. The \<^verbatim>\<open>information\<close>
  object is the list of its properties, in the order \<^verbatim>\<open>Object.keys\<close> enumerates them.
  The records of a year and of a conference are parametric in what stands for a nested
  object: in \<open>YearInfo\<close> and \<open>ConferenceRecord\<close> it is the nested record itself, and in
  the store model further down it is a reference.
\<close>

record DeadlineRecord =
  d_type :: string
  d_date :: "string option"
  d_label :: string
  d_is_predicted :: "bool option"

record ConferenceDates =
  cd_start :: "string option"
  cd_end :: "string option"

record 'deadline Year =
  yi_deadlines :: "'deadline list option"
  yi_conference_dates :: "ConferenceDates option"
  yi_is_predicted :: "bool option"

type_synonym YearInfo = "DeadlineRecord Year"

record 'year Conference =
  c_name :: "string option"
  c_short_name :: "string option"
  c_rank :: string
  c_url :: "string option"
  c_theme :: "string option"
  c_themes :: "string list option"
  c_flagship :: bool
  c_information :: "(string \<times> 'year) list option"

type_synonym ConferenceRecord = "YearInfo Conference"

record MonthSlot =
  ms_year :: int
  ms_month :: int
  ms_label :: string
  ms_date :: jsdate

record FilterState =
  f_themes :: "string set"
  f_search :: string

text \<open>The fields of the \<^verbatim>\<open>ConferenceCalendar\<close> object that the embedded methods use.\<close>

record ConferenceCalendar =
  conferences :: "ConferenceRecord list"
  filteredConferences :: "ConferenceRecord list"
  months :: "MonthSlot list"
  currentMonthIndex :: "int option"
  currentFilters :: FilterState

subsection \<open>generateMonths\<close>

text \<open>
  \<^verbatim>\<open>
  const now = new Date();
  const currentYear = now.getFullYear();
  const currentMonth = now.getMonth(); // 0-11
  const fiscalYearStart = currentMonth >= 3 ? currentYear : currentYear - 1;
  const startDate = new Date(fiscalYearStart, 3, 1);
  const endDate = new Date(fiscalYearStart + 2, 2, 31);
  const totalMonths = (endDate.getFullYear() - startDate.getFullYear()) * 12
                    + (endDate.getMonth() - startDate.getMonth()) + 1;
  this.months = [];
  this.currentMonthIndex = (currentYear - fiscalYearStart) * 12 + (currentMonth - 3);
  for (let i = 0; i < totalMonths; i++) {
      const date = new Date(startDate.getFullYear(), startDate.getMonth() + i, 1);
      this.months.push({ year: date.getFullYear(), month: date.getMonth() + 1,
          label: `${date.getFullYear()}/${String(date.getMonth() + 1).padStart(2, '0')}`,
          date: date });
  }
  \<close>
  The current date \<open>now\<close> is an argument.
\<close>

definition monthSlotAt :: "jsdate \<Rightarrow> int \<Rightarrow> MonthSlot" where
  \<comment> \<open>the body of the loop\<close>
  "monthSlotAt startDate i =
     (let date = newDateYMD (fullYear startDate) (monthIndex startDate + i) 1
      in \<lparr>ms_year = fullYear date,
          ms_month = monthIndex date + 1,
          ms_label = numberToString (fullYear date) @ ''/''
                     @ padStart 2 CHR ''0'' (numberToString (monthIndex date + 1)),
          ms_date = date\<rparr>)"

function monthsLoop :: "jsdate \<Rightarrow> int \<Rightarrow> int \<Rightarrow> MonthSlot list \<Rightarrow> MonthSlot list" where
  "monthsLoop startDate totalMonths i ms =
     (if i < totalMonths
      then monthsLoop startDate totalMonths (i + 1) (ms @ [monthSlotAt startDate i])
      else ms)"
  by pat_completeness auto
termination
  by (relation "measure (\<lambda>(startDate, totalMonths, i, ms). nat (totalMonths - i))") auto

declare monthsLoop.simps [simp del]

definition generateMonths :: "jsdate \<Rightarrow> ConferenceCalendar \<Rightarrow> ConferenceCalendar" where
  "generateMonths now cal =
     (let currentYear = fullYear now;
          currentMonth = monthIndex now;
          fiscalYearStart = (if 3 \<le> currentMonth then currentYear else currentYear - 1);
          startDate = newDateYMD fiscalYearStart 3 1;
          endDate = newDateYMD (fiscalYearStart + 2) 2 31;
          totalMonths = (fullYear endDate - fullYear startDate) * 12
                        + (monthIndex endDate - monthIndex startDate) + 1
      in cal\<lparr>months := monthsLoop startDate totalMonths 0 [],
             currentMonthIndex :=
               Some ((currentYear - fiscalYearStart) * 12 + (currentMonth - 3))\<rparr>)"

text \<open>The words of the specification: the month after a (year, month) pair.\<close>

definition followingMonth :: "int \<times> int \<Rightarrow> int \<times> int" where
  "followingMonth ym = (if snd ym = 12 then (fst ym + 1, 1) else (fst ym, snd ym + 1))"

definition yearMonth :: "MonthSlot \<Rightarrow> int \<times> int" where
  "yearMonth slot = (ms_year slot, ms_month slot)"

text \<open>
  A reading of the system clock: a calendar date from 1970 on, early enough for the
  end of the window to lie within the range of time values.
\<close>

definition clockReading :: "jsdate \<Rightarrow> bool" where
  "clockReading now =
     (0 \<le> monthIndex now \<and> monthIndex now \<le> 11
      \<and> 1 \<le> dayOfMonth now \<and> dayOfMonth now \<le> daysInMonth (fullYear now) (monthIndex now)
      \<and> 1970 \<le> fullYear now \<and> fullYear now \<le> 275757)"

text \<open>The calendar as the constructor leaves it.\<close>

definition initialCalendar :: ConferenceCalendar where
  "initialCalendar =
     \<lparr>conferences = [], filteredConferences = [], months = [], currentMonthIndex = None,
      currentFilters = \<lparr>f_themes = {}, f_search = []\<rparr>\<rparr>"

subsection \<open>applyFilters\<close>

text \<open>
  \<^verbatim>\<open>
  this.filteredConferences = this.conferences.filter(conf => {
      if (this.currentFilters.themes.size === 0) { return false; }
      const confThemes = Array.isArray(conf.themes) ? conf.themes : [conf.theme];
      const hasMatchingTheme = confThemes.some(theme => this.currentFilters.themes.has(theme));
      if (!hasMatchingTheme) { return false; }
      if (this.currentFilters.search) {
          const searchLower = this.currentFilters.search;
          const nameMatch = (conf.name || '').toLowerCase().includes(searchLower);
          const shortNameMatch = (conf.short_name || '').toLowerCase().includes(searchLower);
          const themeMatch = confThemes.some(theme =>
              (theme || '').toLowerCase().includes(searchLower));
          if (!nameMatch && !shortNameMatch && !themeMatch) { return false; }
      }
      return true;
  });
  this.renderCalendar();
  \<close>
  The selected themes are a Set of strings, so \<^verbatim>\<open>has(undefined)\<close> is false. The
  rendering that follows writes the page only and is not part of the model.
\<close>

definition confThemesOf :: "'y Conference \<Rightarrow> string option list" where
  \<comment> \<open>\<^verbatim>\<open>Array.isArray(conf.themes) ? conf.themes : [conf.theme]\<close>\<close>
  "confThemesOf conf =
     (case c_themes conf of Some ts \<Rightarrow> map Some ts | None \<Rightarrow> [c_theme conf])"

definition hasTheme :: "string set \<Rightarrow> string option \<Rightarrow> bool" where
  \<comment> \<open>\<^verbatim>\<open>themes.has(theme)\<close>\<close>
  "hasTheme selected theme = (case theme of None \<Rightarrow> False | Some t \<Rightarrow> t \<in> selected)"

definition filterCallback :: "FilterState \<Rightarrow> 'y Conference \<Rightarrow> bool" where
  "filterCallback cf conf =
     (if f_themes cf = {} then False
      else
        (let confThemes = confThemesOf conf;
             hasMatchingTheme = list_ex (hasTheme (f_themes cf)) confThemes
         in if \<not> hasMatchingTheme then False
            else if f_search cf \<noteq> [] then
              (let searchLower = f_search cf;
                   nameMatch = includes_str (toLowerCase (orEmpty (c_name conf))) searchLower;
                   shortNameMatch =
                     includes_str (toLowerCase (orEmpty (c_short_name conf))) searchLower;
                   themeMatch =
                     list_ex (\<lambda>theme. includes_str (toLowerCase (orEmpty theme)) searchLower)
                       confThemes
               in if \<not> nameMatch \<and> \<not> shortNameMatch \<and> \<not> themeMatch then False else True)
            else True))"

definition applyFilters :: "ConferenceCalendar \<Rightarrow> ConferenceCalendar" where
  "applyFilters cal =
     cal\<lparr>filteredConferences := filter (filterCallback (currentFilters cal)) (conferences cal)\<rparr>"

text \<open>
  The constructor sets \<^verbatim>\<open>currentFilters.search\<close> to the empty string, and the handler
  of the search box is its only other writer:
  \<^verbatim>\<open>
  this.currentFilters.search = e.target.value.toLowerCase();
  this.applyFilters();
  \<close>
\<close>

definition onSearchInput :: "string \<Rightarrow> ConferenceCalendar \<Rightarrow> ConferenceCalendar" where
  "onSearchInput v cal =
     applyFilters (cal\<lparr>currentFilters := (currentFilters cal)\<lparr>f_search := toLowerCase v\<rparr>\<rparr>)"

text \<open>
  The words of the specification: the effective theme set of a record is its
  \<^verbatim>\<open>themes\<close> list, or the singleton of its legacy \<^verbatim>\<open>theme\<close> field; a search string
  matches a text when it is a substring of it, letter case ignored; and a record is
  included when its effective themes meet the selected ones and, for a non-empty search
  string, the search string matches the name, the short name or an effective theme.
\<close>

definition effectiveThemes :: "ConferenceRecord \<Rightarrow> string set" where
  "effectiveThemes conf =
     (case c_themes conf of
        Some ts \<Rightarrow> set ts
      | None \<Rightarrow> (case c_theme conf of Some t \<Rightarrow> {t} | None \<Rightarrow> {}))"

definition substringIgnoringCase :: "string \<Rightarrow> string \<Rightarrow> bool" where
  "substringIgnoringCase needle hay =
     (\<exists>pre post. toLowerCase hay = pre @ toLowerCase needle @ post)"

definition included :: "FilterState \<Rightarrow> ConferenceRecord \<Rightarrow> bool" where
  "included cf conf =
     (effectiveThemes conf \<inter> f_themes cf \<noteq> {}
      \<and> (f_search cf \<noteq> [] \<longrightarrow>
           substringIgnoringCase (f_search cf) (orEmpty (c_name conf))
           \<or> substringIgnoringCase (f_search cf) (orEmpty (c_short_name conf))
           \<or> (\<exists>t \<in> effectiveThemes conf. substringIgnoringCase (f_search cf) t)))"

subsection \<open>getDeadlinesInMonth\<close>

text \<open>
  \<^verbatim>\<open>
  getDeadlinesInMonth(conference, month) {
      const deadlines = [];
      if (conference.information) {
          Object.keys(conference.information).forEach(confYear => {
              const yearInfo = conference.information[confYear];
              if (yearInfo.deadlines) {
                  yearInfo.deadlines.forEach(deadline => {
                      if (deadline.date) {
                          const deadlineDate = new Date(deadline.date);
                          if (deadlineDate.getFullYear() === month.year &&
                              deadlineDate.getMonth() + 1 === month.month) {
                              deadlines.push({ ...deadline,
                                  conferenceName: conference.short_name,
                                  conferenceYear: confYear });
                          }
                      }
                  });
              }
              if (yearInfo.conference_dates && yearInfo.conference_dates.start) {
                  const startDate = new Date(yearInfo.conference_dates.start);
                  if (startDate.getFullYear() === month.year &&
                      startDate.getMonth() + 1 === month.month) {
                      deadlines.push({ type: 'conference',
                          date: yearInfo.conference_dates.start,
                          endDate: yearInfo.conference_dates.end,
                          label: 'Conference Date',
                          is_predicted: yearInfo.is_predicted || false,
                          conferenceName: conference.short_name,
                          conferenceYear: confYear });
                  }
              }
          });
      }
      return deadlines;
  }
  \<close>
  The local array \<^verbatim>\<open>deadlines\<close> is threaded through the two \<^verbatim>\<open>forEach\<close> loops as an
  accumulator, and \<^verbatim>\<open>push\<close> appends to it. The method writes nothing to the console.
\<close>

record Entry =
  e_type :: string
  e_date :: "string option"
  e_endDate :: "string option"
  e_label :: string
  e_is_predicted :: "bool option"
  e_conferenceName :: "string option"
  e_conferenceYear :: string

definition orFalse :: "bool option \<Rightarrow> bool" where
  \<comment> \<open>\<^verbatim>\<open>x || false\<close>, and the truth value of \<^verbatim>\<open>x\<close>, for a boolean or \<^verbatim>\<open>undefined\<close>\<close>
  "orFalse x = (case x of None \<Rightarrow> False | Some b \<Rightarrow> b)"

definition plusOne :: "int option \<Rightarrow> int option" where
  \<comment> \<open>\<^verbatim>\<open>x + 1\<close> for the result of a getter: NaN + 1 is NaN\<close>
  "plusOne x = map_option (\<lambda>n. n + 1) x"

definition inMonth :: "jsdate option \<Rightarrow> MonthSlot \<Rightarrow> bool" where
  \<comment> \<open>\<^verbatim>\<open>d.getFullYear() === month.year && d.getMonth() + 1 === month.month\<close>;
      NaN is equal to no number\<close>
  "inMonth d month =
     (getFullYear d = Some (ms_year month) \<and> plusOne (getMonth d) = Some (ms_month month))"

definition deadlineEntry :: "'y Conference \<Rightarrow> string \<Rightarrow> DeadlineRecord \<Rightarrow> Entry" where
  \<comment> \<open>\<^verbatim>\<open>{...deadline, conferenceName: conference.short_name, conferenceYear: confYear}\<close>\<close>
  "deadlineEntry conference confYear deadline =
     \<lparr>e_type = d_type deadline, e_date = d_date deadline, e_endDate = None,
      e_label = d_label deadline, e_is_predicted = d_is_predicted deadline,
      e_conferenceName = c_short_name conference, e_conferenceYear = confYear\<rparr>"

definition conferenceEntry ::
  "'y Conference \<Rightarrow> string \<Rightarrow> 'd Year \<Rightarrow> ConferenceDates \<Rightarrow> Entry" where
  \<comment> \<open>the object pushed for the conference dates\<close>
  "conferenceEntry conference confYear yearInfo dates =
     \<lparr>e_type = ''conference'', e_date = cd_start dates, e_endDate = cd_end dates,
      e_label = ''Conference Date'',
      e_is_predicted = Some (orFalse (yi_is_predicted yearInfo)),
      e_conferenceName = c_short_name conference, e_conferenceYear = confYear\<rparr>"

definition deadlineCallback ::
  "dateParser \<Rightarrow> ConferenceRecord \<Rightarrow> MonthSlot \<Rightarrow> string \<Rightarrow> Entry list \<Rightarrow> DeadlineRecord
     \<Rightarrow> Entry list" where
  "deadlineCallback newDate conference month confYear deadlines deadline =
     (if truthy (d_date deadline) then
        (let deadlineDate = newDateOf newDate (d_date deadline)
         in if inMonth deadlineDate month
            then deadlines @ [deadlineEntry conference confYear deadline]
            else deadlines)
      else deadlines)"

definition yearCallback ::
  "dateParser \<Rightarrow> ConferenceRecord \<Rightarrow> MonthSlot \<Rightarrow> Entry list \<Rightarrow> string \<times> YearInfo
     \<Rightarrow> Entry list" where
  "yearCallback newDate conference month deadlines property =
     (let confYear = fst property;
          yearInfo = snd property;
          deadlines1 =
            (case yi_deadlines yearInfo of
               None \<Rightarrow> deadlines
             | Some ds \<Rightarrow> foldl (deadlineCallback newDate conference month confYear) deadlines ds)
      in case yi_conference_dates yearInfo of
           None \<Rightarrow> deadlines1
         | Some dates \<Rightarrow>
             if truthy (cd_start dates) then
               (let startDate = newDateOf newDate (cd_start dates)
                in if inMonth startDate month
                   then deadlines1 @ [conferenceEntry conference confYear yearInfo dates]
                   else deadlines1)
             else deadlines1)"

definition getDeadlinesInMonth :: "dateParser \<Rightarrow> ConferenceRecord \<Rightarrow> MonthSlot \<Rightarrow> Entry list" where
  "getDeadlinesInMonth newDate conference month =
     (case c_information conference of
        None \<Rightarrow> []
      | Some information \<Rightarrow> foldl (yearCallback newDate conference month) [] information)"

subsection \<open>createDeadlineMarker and showDeadlineDetails\<close>

text \<open>
  \<^verbatim>\<open>
  marker.className = `deadline-marker deadline-${deadline.type}`;
  if (deadline.is_predicted) { marker.classList.add('deadline-predicted'); }
  let dateStr;
  if (deadline.type === 'conference' && deadline.endDate) {
      const startDate = new Date(deadline.date);
      const endDate = new Date(deadline.endDate);
      dateStr = `${startDate.getMonth() + 1}/${startDate.getDate()}-${endDate.getMonth() + 1}/${endDate.getDate()}`;
  } else {
      const date = new Date(deadline.date);
      dateStr = `${date.getMonth() + 1}/${date.getDate()}`;
  }
  marker.textContent = dateStr;
  ...
  if (!dateStr || dateStr === 'NaN/NaN') {
      console.warn('Invalid date for deadline:', deadline);
  }
  return marker;
  \<close>
  The console is the list of the entries that \<^verbatim>\<open>console.warn\<close> was called with. The
  marker is the string assigned to \<^verbatim>\<open>className\<close>, whether
  \<^verbatim>\<open>classList.add('deadline-predicted')\<close> was called, and the text.
\<close>

record Marker =
  m_className :: string
  m_addPredicted :: bool
  m_textContent :: string

definition createDeadlineMarker :: "dateParser \<Rightarrow> Entry \<Rightarrow> Entry list \<Rightarrow> Marker \<times> Entry list" where
  "createDeadlineMarker newDate deadline console =
     (let className = ''deadline-marker deadline-'' @ e_type deadline;
          addPredicted = orFalse (e_is_predicted deadline);
          dateStr =
            (if e_type deadline = ''conference'' \<and> truthy (e_endDate deadline) then
               (let startDate = newDateOf newDate (e_date deadline);
                    endDate = newDateOf newDate (e_endDate deadline)
                in formatNumber (plusOne (getMonth startDate)) @ ''/''
                   @ formatNumber (getDate startDate) @ ''-''
                   @ formatNumber (plusOne (getMonth endDate)) @ ''/''
                   @ formatNumber (getDate endDate))
             else
               (let date = newDateOf newDate (e_date deadline)
                in formatNumber (plusOne (getMonth date)) @ ''/'' @ formatNumber (getDate date)))
      in (\<lparr>m_className = className, m_addPredicted = addPredicted, m_textContent = dateStr\<rparr>,
          if dateStr = [] \<or> dateStr = ''NaN/NaN'' then console @ [deadline] else console))"

text \<open>
  \<^verbatim>\<open>
  const typeLabel = deadline.label;
  let yearInfo = '';
  if (deadline.conferenceYear && deadline.conferenceName) {
      if (deadline.type === 'conference') {
          yearInfo = `<div ...>Conference: ${deadline.conferenceName} ${deadline.conferenceYear}</div>`;
      } else {
          yearInfo = `<div ...>For: ${deadline.conferenceName} ${deadline.conferenceYear}</div>`;
      }
  }
  popup.innerHTML = `<div ...>${typeLabel}</div> ${yearInfo}
      ${deadline.is_predicted ? '<div ...>Predicted</div>' : ''}`;
  \<close>
  The popup is modelled by the three values that the template of \<^verbatim>\<open>innerHTML\<close>
  interpolates, as strings before the browser parses the markup: the label, the text
  put into the year line (empty when there is none) and whether the ``Predicted'' note
  is put in.
\<close>

record Popup =
  p_header :: string
  p_yearInfo :: string
  p_predicted :: bool

definition showDeadlineDetails :: "Entry \<Rightarrow> Popup" where
  "showDeadlineDetails deadline =
     (let typeLabel = e_label deadline;
          yearInfo =
            (if e_conferenceYear deadline \<noteq> [] \<and> truthy (e_conferenceName deadline) then
               (if e_type deadline = ''conference''
                then ''Conference: '' @ orEmpty (e_conferenceName deadline) @ '' ''
                     @ e_conferenceYear deadline
                else ''For: '' @ orEmpty (e_conferenceName deadline) @ '' ''
                     @ e_conferenceYear deadline)
             else [])
      in \<lparr>p_header = typeLabel, p_yearInfo = yearInfo,
          p_predicted = orFalse (e_is_predicted deadline)\<rparr>)"

subsection \<open>The month columns of a conference row\<close>

text \<open>
  The end of \<^verbatim>\<open>createConferenceRow\<close>:
  \<^verbatim>\<open>
  this.months.forEach(month => {
      const monthColumn = document.createElement('div');
      ...
      const deadlinesInMonth = this.getDeadlinesInMonth(conference, month);
      deadlinesInMonth.forEach(deadline => {
          const marker = this.createDeadlineMarker(deadline);
          monthColumn.appendChild(marker);
      });
      timelineDiv.appendChild(monthColumn);
  });
  \<close>
  A column is the list of its markers, the timeline the list of its columns; the console
  is threaded through.
\<close>

definition markerCallback ::
  "dateParser \<Rightarrow> Marker list \<times> Entry list \<Rightarrow> Entry \<Rightarrow> Marker list \<times> Entry list" where
  "markerCallback newDate state deadline =
     (let made = createDeadlineMarker newDate deadline (snd state)
      in (fst state @ [fst made], snd made))"

definition monthCallback ::
  "dateParser \<Rightarrow> ConferenceRecord \<Rightarrow> Marker list list \<times> Entry list \<Rightarrow> MonthSlot
     \<Rightarrow> Marker list list \<times> Entry list" where
  "monthCallback newDate conference state month =
     (let deadlinesInMonth = getDeadlinesInMonth newDate conference month;
          column = foldl (markerCallback newDate) ([], snd state) deadlinesInMonth
      in (fst state @ [fst column], snd column))"

definition timelineColumns ::
  "dateParser \<Rightarrow> MonthSlot list \<Rightarrow> ConferenceRecord \<Rightarrow> Entry list
     \<Rightarrow> Marker list list \<times> Entry list" where
  "timelineColumns newDate ms conference console =
     foldl (monthCallback newDate conference) ([], console) ms"

text \<open>
  The words of the specification: the (year, month) a deadline record's date parses to
  (none when the date is absent, empty or unparseable); the deadlines of a YearInfo that
  belong to a month slot; and the conference-dates entry of a YearInfo for a month slot.
\<close>

definition parsedYearMonth :: "dateParser \<Rightarrow> string option \<Rightarrow> (int \<times> int) option" where
  "parsedYearMonth newDate x =
     (case x of
        None \<Rightarrow> None
      | Some s \<Rightarrow>
          if s = [] then None
          else map_option (\<lambda>d. (fullYear d, monthIndex d + 1)) (newDate s))"

definition deadlinesOf :: "YearInfo \<Rightarrow> DeadlineRecord list" where
  "deadlinesOf yearInfo = (case yi_deadlines yearInfo of None \<Rightarrow> [] | Some ds \<Rightarrow> ds)"

definition deadlinesInSlot :: "dateParser \<Rightarrow> MonthSlot \<Rightarrow> YearInfo \<Rightarrow> DeadlineRecord list" where
  "deadlinesInSlot newDate month yearInfo =
     filter (\<lambda>d. parsedYearMonth newDate (d_date d) = Some (yearMonth month))
       (deadlinesOf yearInfo)"

definition conferenceInSlot ::
  "dateParser \<Rightarrow> ConferenceRecord \<Rightarrow> MonthSlot \<Rightarrow> string \<Rightarrow> YearInfo \<Rightarrow> Entry list" where
  "conferenceInSlot newDate conference month confYear yearInfo =
     (case yi_conference_dates yearInfo of
        None \<Rightarrow> []
      | Some dates \<Rightarrow>
          if parsedYearMonth newDate (cd_start dates) = Some (yearMonth month)
          then [conferenceEntry conference confYear yearInfo dates]
          else [])"

definition informationOf :: "ConferenceRecord \<Rightarrow> (string \<times> YearInfo) list" where
  "informationOf conference =
     (case c_information conference of None \<Rightarrow> [] | Some information \<Rightarrow> information)"

definition yearEntries ::
  "dateParser \<Rightarrow> ConferenceRecord \<Rightarrow> MonthSlot \<Rightarrow> string \<times> YearInfo \<Rightarrow> Entry list" where
  \<comment> \<open>the entries of one property of \<^verbatim>\<open>information\<close> for a month slot\<close>
  "yearEntries newDate conference month property =
     map (deadlineEntry conference (fst property)) (deadlinesInSlot newDate month (snd property))
       @ conferenceInSlot newDate conference month (fst property) (snd property)"

definition lacksConferenceStart :: "YearInfo \<Rightarrow> bool" where
  \<comment> \<open>the YearInfo has no \<^verbatim>\<open>conference_dates\<close>, or they have no (or an empty) \<^verbatim>\<open>start\<close>\<close>
  "lacksConferenceStart yearInfo =
     (case yi_conference_dates yearInfo of None \<Rightarrow> True | Some dates \<Rightarrow> \<not> truthy (cd_start dates))"

subsection \<open>Example data\<close>

definition conferenceACM :: ConferenceRecord where
  "conferenceACM =
     \<lparr>c_name = Some ''ACM Symposium on Operating Systems Principles'',
      c_short_name = Some ''SOSP'', c_rank = ''A*'', c_url = None, c_theme = None,
      c_themes = Some [''01. Systems''], c_flagship = True, c_information = None\<rparr>"

definition conferenceLegacy :: ConferenceRecord where
  \<comment> \<open>a record of the old feed: one theme, no \<^verbatim>\<open>themes\<close> array\<close>
  "conferenceLegacy =
     \<lparr>c_name = Some ''Neural Information Processing Systems'',
      c_short_name = Some ''NeurIPS'', c_rank = ''A*'', c_url = None,
      c_theme = Some ''02. Machine Learning'',
      c_themes = None, c_flagship = False, c_information = None\<rparr>"

definition calendarOf :: "ConferenceRecord list \<Rightarrow> string set \<Rightarrow> string \<Rightarrow> ConferenceCalendar" where
  \<comment> \<open>a calendar with the given conferences loaded and the given filters set\<close>
  "calendarOf confs selected search =
     \<lparr>conferences = confs, filteredConferences = [], months = [], currentMonthIndex = None,
      currentFilters = \<lparr>f_themes = selected, f_search = search\<rparr>\<rparr>"

definition slot :: "int \<Rightarrow> int \<Rightarrow> MonthSlot" where
  \<comment> \<open>the slot that generateMonths makes for month \<open>m\<close> (1 to 12) of year \<open>y\<close>\<close>
  "slot y m =
     \<lparr>ms_year = y, ms_month = m,
      ms_label = numberToString y @ ''/'' @ padStart 2 CHR ''0'' (numberToString m),
      ms_date = \<lparr>fullYear = y, monthIndex = m - 1, dayOfMonth = 1\<rparr>\<rparr>"

definition conferenceWith :: "(string \<times> YearInfo) list \<Rightarrow> ConferenceRecord" where
  "conferenceWith information = conferenceACM\<lparr>c_information := Some information\<rparr>"

definition deadlineOn :: "string \<Rightarrow> string \<Rightarrow> DeadlineRecord" where
  "deadlineOn kind day =
     \<lparr>d_type = kind, d_date = Some day, d_label = kind, d_is_predicted = Some False\<rparr>"

definition yearWith :: "DeadlineRecord list \<Rightarrow> YearInfo" where
  \<comment> \<open>a YearInfo with deadlines only\<close>
  "yearWith ds = \<lparr>yi_deadlines = Some ds, yi_conference_dates = None, yi_is_predicted = None\<rparr>"

definition yearHeld :: "string \<Rightarrow> string \<Rightarrow> YearInfo" where
  \<comment> \<open>a YearInfo with conference dates only\<close>
  "yearHeld first final =
     \<lparr>yi_deadlines = None,
      yi_conference_dates = Some \<lparr>cd_start = Some first, cd_end = Some final\<rparr>,
      yi_is_predicted = None\<rparr>"

definition now2025 :: jsdate where
  "now2025 = \<lparr>fullYear = 2025, monthIndex = 10, dayOfMonth = 15\<rparr>"

definition conferenceBusy :: ConferenceRecord where
  \<comment> \<open>two deadlines in March 2026, one in May, and the conference in June\<close>
  "conferenceBusy =
     conferenceWith
       [(''2026'', yearWith [deadlineOn ''submission'' ''2026-03-10'',
                            deadlineOn ''notification'' ''2026-05-20'',
                            deadlineOn ''abstract'' ''2026-03-03'']),
        (''2027'', yearHeld ''2026-06-01'' ''2026-06-05'')]"

definition conferenceJune :: ConferenceRecord where
  \<comment> \<open>the conference is held from 2026-06-01 to 2026-06-05\<close>
  "conferenceJune = conferenceWith [(''2026'', yearHeld ''2026-06-01'' ''2026-06-05'')]"

definition conferenceBroken :: ConferenceRecord where
  \<comment> \<open>an empty date, an unparseable date and a good one\<close>
  "conferenceBroken =
     conferenceWith
       [(''2026'', yearWith [deadlineOn ''submission'' [],
                            deadlineOn ''notification'' ''TBD'',
                            deadlineOn ''camera-ready'' ''2026-03-10''])]"

definition conferenceBare :: ConferenceRecord where
  \<comment> \<open>years without deadlines and without a start of the conference\<close>
  "conferenceBare =
     conferenceWith
       [(''2026'', \<lparr>yi_deadlines = None, yi_conference_dates = None, yi_is_predicted = None\<rparr>),
        (''2027'', \<lparr>yi_deadlines = None,
                    yi_conference_dates = Some \<lparr>cd_start = None, cd_end = Some ''2027-06-05''\<rparr>,
                    yi_is_predicted = Some True\<rparr>)]"

definition conferenceMarchFirst :: ConferenceRecord where
  \<comment> \<open>one submission deadline, on the first day of March 2026\<close>
  "conferenceMarchFirst =
     conferenceWith [(''2026'', yearWith [deadlineOn ''submission'' ''2026-03-01''])]"

subsection \<open>The same methods on a store of objects\<close>

text \<open>
  To say that a method leaves the objects of the feed as they are, the objects get an
  identity: a store maps references to objects, a year refers to its deadline objects
  and a conference to its year objects. An object literal of the code allocates a new
  object at the next free reference; \<open>allocate\<close> is the only function below that
  writes the store. A read through a reference that holds no object of the expected
  shape has no counterpart in the code and ends the run with \<open>None\<close>.
  A method reads the fields of an object when it first follows the reference.
\<close>

type_synonym ref = nat

datatype jsobject =
    ConferenceObject "ref Conference"
  | YearInfoObject "ref Year"
  | DeadlineObject DeadlineRecord
  | EntryObject Entry

record store =
  objectAt :: "ref \<Rightarrow> jsobject option"
  limit :: ref

definition allocate :: "jsobject \<Rightarrow> store \<Rightarrow> store \<times> ref" where
  "allocate obj h = (\<lparr>objectAt = (objectAt h)(limit h \<mapsto> obj), limit = Suc (limit h)\<rparr>, limit h)"

definition push :: "Entry \<Rightarrow> store \<times> ref list \<Rightarrow> store \<times> ref list" where
  \<comment> \<open>\<^verbatim>\<open>deadlines.push({...})\<close>: a new object, and its reference at the end of the array\<close>
  "push entry state =
     (let made = allocate (EntryObject entry) (fst state)
      in (fst made, snd state @ [snd made]))"

definition deadlineCallbackOn ::
  "dateParser \<Rightarrow> ref Conference \<Rightarrow> MonthSlot \<Rightarrow> string \<Rightarrow> (store \<times> ref list) option \<Rightarrow> ref
     \<Rightarrow> (store \<times> ref list) option" where
  "deadlineCallbackOn newDate conference month confYear run r =
     (case run of
        None \<Rightarrow> None
      | Some state \<Rightarrow>
          (case objectAt (fst state) r of
             Some (DeadlineObject deadline) \<Rightarrow>
               if truthy (d_date deadline) then
                 (let deadlineDate = newDateOf newDate (d_date deadline)
                  in if inMonth deadlineDate month
                     then Some (push (deadlineEntry conference confYear deadline) state)
                     else Some state)
               else Some state
           | _ \<Rightarrow> None))"

definition yearCallbackOn ::
  "dateParser \<Rightarrow> ref Conference \<Rightarrow> MonthSlot \<Rightarrow> (store \<times> ref list) option \<Rightarrow> string \<times> ref
     \<Rightarrow> (store \<times> ref list) option" where
  "yearCallbackOn newDate conference month run property =
     (case run of
        None \<Rightarrow> None
      | Some state \<Rightarrow>
          (case objectAt (fst state) (snd property) of
             Some (YearInfoObject yearInfo) \<Rightarrow>
               (let confYear = fst property;
                    run1 =
                      (case yi_deadlines yearInfo of
                         None \<Rightarrow> Some state
                       | Some rs \<Rightarrow>
                           foldl (deadlineCallbackOn newDate conference month confYear)
                             (Some state) rs)
                in case run1 of
                     None \<Rightarrow> None
                   | Some state1 \<Rightarrow>
                       (case yi_conference_dates yearInfo of
                          None \<Rightarrow> Some state1
                        | Some dates \<Rightarrow>
                            if truthy (cd_start dates) then
                              (let startDate = newDateOf newDate (cd_start dates)
                               in if inMonth startDate month
                                  then Some (push (conferenceEntry conference confYear
                                                     yearInfo dates) state1)
                                  else Some state1)
                            else Some state1))
           | _ \<Rightarrow> None))"

definition getDeadlinesInMonthOn ::
  "dateParser \<Rightarrow> store \<Rightarrow> ref \<Rightarrow> MonthSlot \<Rightarrow> (store \<times> ref list) option" where
  "getDeadlinesInMonthOn newDate h r month =
     (case objectAt h r of
        Some (ConferenceObject conference) \<Rightarrow>
          (case c_information conference of
             None \<Rightarrow> Some (h, [])
           | Some information \<Rightarrow>
               foldl (yearCallbackOn newDate conference month) (Some (h, [])) information)
      | _ \<Rightarrow> None)"

text \<open>
  The calendar object holds references to the conferences. \<^verbatim>\<open>filter\<close> makes a new
  array of the references that pass; applyFilters stores it in the calendar and
  allocates no object of the feed's kind.
\<close>

record CalendarObject =
  conferenceRefs :: "ref list"
  filteredRefs :: "ref list"
  filtersOf :: FilterState

fun filterOn :: "store \<Rightarrow> FilterState \<Rightarrow> ref list \<Rightarrow> ref list option" where
  "filterOn h cf [] = Some []"
| "filterOn h cf (r # rs) =
     (case objectAt h r of
        Some (ConferenceObject conf) \<Rightarrow>
          (case filterOn h cf rs of
             None \<Rightarrow> None
           | Some kept \<Rightarrow> Some (if filterCallback cf conf then r # kept else kept))
      | _ \<Rightarrow> None)"

definition applyFiltersOn :: "store \<Rightarrow> CalendarObject \<Rightarrow> (store \<times> CalendarObject) option" where
  "applyFiltersOn h cal =
     (case filterOn h (filtersOf cal) (conferenceRefs cal) of
        None \<Rightarrow> None
      | Some kept \<Rightarrow> Some (h, cal\<lparr>filteredRefs := kept\<rparr>))"

text \<open>
  A reference represents a record when the object it holds, and the objects that one
  refers to, have the fields of the record. All of them lie below the limit of the
  store.
\<close>

definition representsDeadline :: "store \<Rightarrow> ref \<Rightarrow> DeadlineRecord \<Rightarrow> bool" where
  "representsDeadline h r deadline =
     (r < limit h \<and> objectAt h r = Some (DeadlineObject deadline))"

definition representsYear :: "store \<Rightarrow> ref \<Rightarrow> YearInfo \<Rightarrow> bool" where
  "representsYear h r yearInfo =
     (r < limit h \<and>
      (case objectAt h r of
         Some (YearInfoObject y) \<Rightarrow>
           rel_option (list_all2 (representsDeadline h)) (yi_deadlines y) (yi_deadlines yearInfo)
           \<and> yi_conference_dates y = yi_conference_dates yearInfo
           \<and> yi_is_predicted y = yi_is_predicted yearInfo
       | _ \<Rightarrow> False))"

definition representsProperty :: "store \<Rightarrow> string \<times> ref \<Rightarrow> string \<times> YearInfo \<Rightarrow> bool" where
  "representsProperty h p q = (fst p = fst q \<and> representsYear h (snd p) (snd q))"

definition represents :: "store \<Rightarrow> ref \<Rightarrow> ConferenceRecord \<Rightarrow> bool" where
  "represents h r conf =
     (r < limit h \<and>
      (case objectAt h r of
         Some (ConferenceObject c) \<Rightarrow>
           c_name c = c_name conf \<and> c_short_name c = c_short_name conf
           \<and> c_rank c = c_rank conf \<and> c_url c = c_url conf \<and> c_theme c = c_theme conf
           \<and> c_themes c = c_themes conf \<and> c_flagship c = c_flagship conf
           \<and> rel_option (list_all2 (representsProperty h))
                (c_information c) (c_information conf)
       | _ \<Rightarrow> False))"

definition unchangedBelow :: "store \<Rightarrow> store \<Rightarrow> bool" where
  \<comment> \<open>every reference of the first store holds in the second what it held in the first\<close>
  "unchangedBelow h h' =
     (limit h \<le> limit h' \<and> (\<forall>r < limit h. objectAt h' r = objectAt h r))"

definition exampleStore :: store where
  \<comment> \<open>\<open>conferenceBusy\<close> at reference 5, its years at 3 and 4, its deadlines at 0, 1 and 2\<close>
  "exampleStore =
     \<lparr>objectAt =
        [0 \<mapsto> DeadlineObject (deadlineOn ''submission'' ''2026-03-10''),
         1 \<mapsto> DeadlineObject (deadlineOn ''notification'' ''2026-05-20''),
         2 \<mapsto> DeadlineObject (deadlineOn ''abstract'' ''2026-03-03''),
         3 \<mapsto> YearInfoObject
               \<lparr>yi_deadlines = Some [0, 1, 2], yi_conference_dates = None,
                yi_is_predicted = None\<rparr>,
         4 \<mapsto> YearInfoObject
               \<lparr>yi_deadlines = None,
                yi_conference_dates =
                  Some \<lparr>cd_start = Some ''2026-06-01'', cd_end = Some ''2026-06-05''\<rparr>,
                yi_is_predicted = None\<rparr>,
         5 \<mapsto> ConferenceObject
               \<lparr>c_name = Some ''ACM Symposium on Operating Systems Principles'',
                c_short_name = Some ''SOSP'', c_rank = ''A*'', c_url = None, c_theme = None,
                c_themes = Some [''01. Systems''], c_flagship = True,
                c_information = Some [(''2026'', 3), (''2027'', 4)]\<rparr>],
      limit = 6\<rparr>"

definition pushAll :: "Entry list \<Rightarrow> store \<times> ref list \<Rightarrow> store \<times> ref list" where
  \<comment> \<open>one \<open>push\<close> after the other\<close>
  "pushAll entries state = foldl (\<lambda>s e. push e s) state entries"

definition exampleCalendar :: CalendarObject where
  "exampleCalendar =
     \<lparr>conferenceRefs = [5], filteredRefs = [],
      filtersOf = \<lparr>f_themes = {''01. Systems''}, f_search = ''sosp''\<rparr>\<rparr>"

section \<open>Properties\<close>

subsection \<open>Strings\<close>

lemma includes_iff: "includes_str hay needle \<longleftrightarrow> (\<exists>pre post. hay = pre @ needle @ post)"
proof (induction hay)
  case Nil
  then show ?case by auto
next
  case (Cons c cs)
  show ?case
  proof
    assume "includes_str (c # cs) needle"
    then consider "prefix needle (c # cs)" | "includes_str cs needle" by auto
    then show "\<exists>pre post. c # cs = pre @ needle @ post"
    proof cases
      case 1
      then obtain post where "c # cs = needle @ post" by (auto simp: prefix_def)
      then have "c # cs = [] @ needle @ post" by simp
      then show ?thesis by blast
    next
      case 2
      with Cons.IH obtain pre post where "cs = pre @ needle @ post" by blast
      then have "c # cs = (c # pre) @ needle @ post" by simp
      then show ?thesis by blast
    qed
  next
    assume "\<exists>pre post. c # cs = pre @ needle @ post"
    then obtain pre post where eq: "c # cs = pre @ needle @ post" by blast
    show "includes_str (c # cs) needle"
    proof (cases pre)
      case Nil
      with eq have "prefix needle (c # cs)" by (simp add: prefix_def)
      then show ?thesis by simp
    next
      case (Cons p ps)
      with eq have "cs = ps @ needle @ post" by simp
      with Cons.IH have "includes_str cs needle" by blast
      then show ?thesis by simp
    qed
  qed
qed

lemma digit_not_sep: "isDigit c \<Longrightarrow> \<not> isDotOrSpace c"
  by (auto simp: isDigit_def isDotOrSpace_def isWhiteSpace_def)

lemma hasNumericPrefix_iff:
  "hasNumericPrefix s \<longleftrightarrow>
     takeWhile isDigit s \<noteq> [] \<and> takeWhile isDotOrSpace (dropWhile isDigit s) \<noteq> []"
proof
  assume "hasNumericPrefix s"
  then obtain ds seps rest where s: "s = ds @ seps @ rest" and ds: "ds \<noteq> []"
    and dig: "list_all isDigit ds" and seps: "seps \<noteq> []" and sep: "list_all isDotOrSpace seps"
    by (auto simp: hasNumericPrefix_def)
  from seps obtain c cs where c: "seps = c # cs" by (cases seps) auto
  with sep have nd: "\<not> isDigit c" using digit_not_sep by auto
  from dig have tw: "takeWhile isDigit s = ds"
    unfolding s c using nd by (simp add: takeWhile_append2 list_all_iff)
  from dig have dw: "dropWhile isDigit s = seps @ rest"
    unfolding s c using nd by (simp add: dropWhile_append2 list_all_iff)
  from sep have "takeWhile isDotOrSpace (seps @ rest) \<noteq> []"
    unfolding c by simp
  with tw dw ds show "takeWhile isDigit s \<noteq> [] \<and> takeWhile isDotOrSpace (dropWhile isDigit s) \<noteq> []"
    by simp
next
  assume a: "takeWhile isDigit s \<noteq> [] \<and> takeWhile isDotOrSpace (dropWhile isDigit s) \<noteq> []"
  let ?ds = "takeWhile isDigit s"
  let ?r = "dropWhile isDigit s"
  have "s = ?ds @ takeWhile isDotOrSpace ?r @ dropWhile isDotOrSpace ?r" by simp
  moreover have "list_all isDigit ?ds"
    by (auto simp: list_all_iff dest: set_takeWhileD)
  moreover have "list_all isDotOrSpace (takeWhile isDotOrSpace ?r)"
    by (auto simp: list_all_iff dest: set_takeWhileD)
  ultimately show "hasNumericPrefix s"
    unfolding hasNumericPrefix_def using a by blast
qed

lemma replaceNumberPrefix_split:
  assumes "ds \<noteq> []" "list_all isDigit ds" "seps \<noteq> []" "list_all isDotOrSpace seps"
    and "rest = [] \<or> \<not> isDotOrSpace (hd rest)"
  shows "replaceNumberPrefix (ds @ seps @ rest) = rest"
proof -
  from assms(3) obtain c cs where c: "seps = c # cs" by (cases seps) auto
  with assms(4) have nd: "\<not> isDigit c" using digit_not_sep by auto
  have tw: "takeWhile isDigit (ds @ seps @ rest) = ds"
    unfolding c using nd assms(2) by (simp add: takeWhile_append2 list_all_iff)
  have dw: "dropWhile isDigit (ds @ seps @ rest) = seps @ rest"
    unfolding c using nd assms(2) by (simp add: dropWhile_append2 list_all_iff)
  have tw2: "takeWhile isDotOrSpace (seps @ rest) \<noteq> []"
    unfolding c using assms(4) c by simp
  have "dropWhile isDotOrSpace rest = rest"
    using assms(5) by (cases rest) auto
  with assms(4) have dw2: "dropWhile isDotOrSpace (seps @ rest) = rest"
    by (simp add: dropWhile_append2 list_all_iff)
  show ?thesis
    unfolding replaceNumberPrefix_def Let_def tw dw using tw2 dw2 assms(1) by simp
qed

lemma trim_noOuterSpace: "noOuterSpace s \<Longrightarrow> trim s = s"
proof (cases s)
  case Nil
  then show ?thesis by (simp add: trim_def)
next
  case (Cons c cs)
  assume "noOuterSpace s"
  with Cons have h: "\<not> isWhiteSpace (hd s)" and l: "\<not> isWhiteSpace (last s)"
    by (auto simp: noOuterSpace_def)
  from h have 1: "dropWhile isWhiteSpace s = s"
    by (simp add: dropWhile_eq_self_iff)
  from Cons have "hd (rev s) = last s" by (simp add: hd_rev)
  with l have "dropWhile isWhiteSpace (rev s) = rev s"
    by (simp add: dropWhile_eq_self_iff)
  with 1 show ?thesis by (simp add: trim_def)
qed

subsection \<open>stripThemePrefix\<close>

text \<open>
  C7. stripThemePrefix removes a leading numeric prefix (digits followed by dots
  and/or white space, all of them) and trims the remainder: ``01. Systems'' becomes
  ``Systems''. A theme without such a prefix is returned trimmed, and so unchanged
  when it neither starts nor ends with white space.
\<close>

theorem stripThemePrefix_trimmed_remainder:
  "(ds \<noteq> [] \<and> list_all isDigit ds \<and> seps \<noteq> [] \<and> list_all isDotOrSpace seps
      \<and> (rest = [] \<or> \<not> isDotOrSpace (hd rest))
      \<longrightarrow> stripThemePrefix (Some (ds @ seps @ rest)) = Some (trim rest))
   \<and> (\<not> hasNumericPrefix s \<longrightarrow> stripThemePrefix (Some s) = Some (trim s))
   \<and> (\<not> hasNumericPrefix s \<and> noOuterSpace s \<longrightarrow> stripThemePrefix (Some s) = Some s)
   \<and> stripThemePrefix (Some ''01. Systems'') = Some ''Systems''"
proof (intro conjI impI)
  assume a: "ds \<noteq> [] \<and> list_all isDigit ds \<and> seps \<noteq> [] \<and> list_all isDotOrSpace seps
      \<and> (rest = [] \<or> \<not> isDotOrSpace (hd rest))"
  then have "replaceNumberPrefix (ds @ seps @ rest) = rest"
    using replaceNumberPrefix_split by blast
  with a show "stripThemePrefix (Some (ds @ seps @ rest)) = Some (trim rest)"
    by (simp add: stripThemePrefix_def truthy_def orEmpty_def)
next
  assume "\<not> hasNumericPrefix s"
  then have r: "replaceNumberPrefix s = s"
    by (auto simp: hasNumericPrefix_iff replaceNumberPrefix_def Let_def)
  show "stripThemePrefix (Some s) = Some (trim s)"
  proof (cases "s = []")
    case True
    then show ?thesis by (simp add: stripThemePrefix_def truthy_def trim_def)
  next
    case False
    with r show ?thesis by (simp add: stripThemePrefix_def truthy_def orEmpty_def)
  qed
next
  assume a: "\<not> hasNumericPrefix s \<and> noOuterSpace s"
  then have r: "replaceNumberPrefix s = s"
    by (auto simp: hasNumericPrefix_iff replaceNumberPrefix_def Let_def)
  from a have "trim s = s" by (simp add: trim_noOuterSpace)
  with r show "stripThemePrefix (Some s) = Some s"
    by (simp add: stripThemePrefix_def truthy_def orEmpty_def)
next
  show "stripThemePrefix (Some ''01. Systems'') = Some ''Systems''"
    by (simp add: stripThemePrefix_def truthy_def orEmpty_def replaceNumberPrefix_def
        trim_def isDigit_def isDotOrSpace_def isWhiteSpace_def)
qed

theorem stripThemePrefix_trimmed_remainder_witness:
  "list_all isDigit ''19'' \<and> list_all isDotOrSpace ''. ''
   \<and> \<not> isDotOrSpace (hd ''Security '')
   \<and> stripThemePrefix (Some (''19'' @ ''. '' @ ''Security '')) = Some ''Security''
   \<and> \<not> hasNumericPrefix ''2nd track'' \<and> noOuterSpace ''2nd track''
   \<and> stripThemePrefix (Some ''2nd track'') = Some ''2nd track''"
proof -
  have h1: "''19'' \<noteq> [] \<and> list_all isDigit ''19'' \<and> ''. '' \<noteq> [] \<and> list_all isDotOrSpace ''. ''
      \<and> (''Security '' = [] \<or> \<not> isDotOrSpace (hd ''Security ''))"
    by (simp add: isDigit_def isDotOrSpace_def isWhiteSpace_def)
  have h2: "\<not> hasNumericPrefix ''2nd track''"
    by (simp add: hasNumericPrefix_iff isDigit_def isDotOrSpace_def isWhiteSpace_def)
  have h3: "noOuterSpace ''2nd track''"
    by (simp add: noOuterSpace_def isWhiteSpace_def)
  have t: "trim ''Security '' = ''Security''"
    by (simp add: trim_def isWhiteSpace_def)
  from h1 h2 h3 t
    stripThemePrefix_trimmed_remainder [of "''19''" "''. ''" "''Security ''" "''2nd track''"]
  show ?thesis by (simp add: trim_def isWhiteSpace_def)
qed

theorem stripThemePrefix_not_identity_counterexample:
  "\<not> hasNumericPrefix ''AI '' \<and> stripThemePrefix (Some ''AI '') = Some ''AI''
   \<and> stripThemePrefix (Some ''AI '') \<noteq> Some ''AI ''"
  by (simp add: hasNumericPrefix_iff stripThemePrefix_def truthy_def orEmpty_def
      replaceNumberPrefix_def trim_def isDigit_def isDotOrSpace_def isWhiteSpace_def)

subsection \<open>generateMonths\<close>

lemma daysInMonth_ge: "28 \<le> daysInMonth y m"
  by (simp add: daysInMonth_def)

lemma normalizeDay_valid:
  "1 \<le> d \<Longrightarrow> d \<le> daysInMonth y m \<Longrightarrow>
   normalizeDay y m d = \<lparr>fullYear = y, monthIndex = m, dayOfMonth = d\<rparr>"
  by (simp add: normalizeDay.simps)

lemma newDateYMD_first:
  "\<not> (0 \<le> y \<and> y \<le> 99) \<Longrightarrow>
   newDateYMD y m 1 = \<lparr>fullYear = y + m div 12, monthIndex = m mod 12, dayOfMonth = 1\<rparr>"
  using daysInMonth_ge [of "y + m div 12" "m mod 12"]
  by (auto simp: newDateYMD_def normalizeDay_valid)

lemma newDateYMD_march31:
  "\<not> (0 \<le> y \<and> y \<le> 99) \<Longrightarrow>
   newDateYMD y 2 31 = \<lparr>fullYear = y, monthIndex = 2, dayOfMonth = 31\<rparr>"
  by (auto simp: newDateYMD_def normalizeDay_valid daysInMonth_def)

lemma monthsLoop_upto:
  "monthsLoop startDate totalMonths i ms = ms @ map (monthSlotAt startDate) [i..totalMonths - 1]"
proof (induction startDate totalMonths i ms rule: monthsLoop.induct)
  case (1 startDate totalMonths i ms)
  show ?case
  proof (cases "i < totalMonths")
    case True
    then have "[i..totalMonths - 1] = i # [i + 1..totalMonths - 1]"
      by (simp add: upto_rec1)
    with True "1.IH" show ?thesis
      by (simp add: monthsLoop.simps [of startDate totalMonths i])
  next
    case False
    then show ?thesis by (simp add: monthsLoop.simps [of startDate totalMonths i])
  qed
qed

lemma yearMonth_monthSlotAt:
  "\<not> (0 \<le> y \<and> y \<le> 99) \<Longrightarrow>
   yearMonth (monthSlotAt \<lparr>fullYear = y, monthIndex = 3, dayOfMonth = 1\<rparr> i)
     = (y + (3 + i) div 12, (3 + i) mod 12 + 1)"
  by (simp add: monthSlotAt_def yearMonth_def newDateYMD_first Let_def)

lemma generateMonths_months:
  assumes "100 \<le> fy"
  shows "monthsLoop (newDateYMD fy 3 1)
           ((fullYear (newDateYMD (fy + 2) 2 31) - fullYear (newDateYMD fy 3 1)) * 12
             + (monthIndex (newDateYMD (fy + 2) 2 31) - monthIndex (newDateYMD fy 3 1)) + 1) 0 []
         = map (monthSlotAt \<lparr>fullYear = fy, monthIndex = 3, dayOfMonth = 1\<rparr>) [0..23]"
  using assms by (simp add: newDateYMD_first newDateYMD_march31 monthsLoop_upto)

lemma upto23: "[0..23::int] = [0,1,2,3,4,5,6,7,8,9,10,11,12,13,14,15,16,17,18,19,20,21,22,23]"
  by code_simp

lemma generateMonths_window:
  assumes "100 \<le> fy"
  shows "map yearMonth (map (monthSlotAt \<lparr>fullYear = fy, monthIndex = 3, dayOfMonth = 1\<rparr>) [0..23])
    = [(fy, 4), (fy, 5), (fy, 6), (fy, 7), (fy, 8), (fy, 9), (fy, 10), (fy, 11), (fy, 12),
       (fy + 1, 1), (fy + 1, 2), (fy + 1, 3), (fy + 1, 4), (fy + 1, 5), (fy + 1, 6),
       (fy + 1, 7), (fy + 1, 8), (fy + 1, 9), (fy + 1, 10), (fy + 1, 11), (fy + 1, 12),
       (fy + 2, 1), (fy + 2, 2), (fy + 2, 3)]"
  using assms by (simp add: upto23 yearMonth_monthSlotAt)

lemma generateMonths_fields:
  assumes "clockReading now"
  shows "months (generateMonths now cal)
           = map (monthSlotAt \<lparr>fullYear = (if monthIndex now < 3 then fullYear now - 1 else fullYear now),
                              monthIndex = 3, dayOfMonth = 1\<rparr>) [0..23]"
    and "currentMonthIndex (generateMonths now cal)
           = Some (if monthIndex now < 3 then monthIndex now + 9 else monthIndex now - 3)"
proof -
  let ?fy = "if monthIndex now < 3 then fullYear now - 1 else fullYear now"
  from assms have fy: "100 \<le> ?fy" by (simp add: clockReading_def)
  have fy': "(if 3 \<le> monthIndex now then fullYear now else fullYear now - 1) = ?fy" by simp
  have sd: "newDateYMD ?fy 3 1 = \<lparr>fullYear = ?fy, monthIndex = 3, dayOfMonth = 1\<rparr>"
    using fy by (simp add: newDateYMD_first)
  show "months (generateMonths now cal)
           = map (monthSlotAt \<lparr>fullYear = ?fy, monthIndex = 3, dayOfMonth = 1\<rparr>) [0..23]"
    unfolding generateMonths_def Let_def fy'
    using generateMonths_months [OF fy] sd by simp
  show "currentMonthIndex (generateMonths now cal)
           = Some (if monthIndex now < 3 then monthIndex now + 9 else monthIndex now - 3)"
    unfolding generateMonths_def Let_def by simp
qed

text \<open>
  C3. For every reading of the clock, generateMonths produces exactly 24 month slots:
  the first is April of the fiscal-year start (the previous year when the current month
  is January to March, the current year otherwise), every slot is followed by the next
  calendar month, the last is March two years later, and currentMonthIndex is the
  position of the current (year, month) in the sequence. For 2025-11-15 the window is
  April 2025 to March 2027 and the index is 7.
\<close>

theorem generateMonths_fiscal_window:
  assumes "clockReading now"
  shows "(let fy = (if monthIndex now < 3 then fullYear now - 1 else fullYear now);
              cal' = generateMonths now cal;
              window = map yearMonth (months cal')
          in length (months cal') = 24
             \<and> hd window = (fy, 4) \<and> last window = (fy + 2, 3)
             \<and> successively (\<lambda>a b. b = followingMonth a) window
             \<and> (\<exists>k. currentMonthIndex cal' = Some (int k) \<and> k < 24
                    \<and> window ! k = (fullYear now, monthIndex now + 1)))
         \<and> map yearMonth (months (generateMonths
               \<lparr>fullYear = 2025, monthIndex = 10, dayOfMonth = 15\<rparr> cal))
             = [(2025, 4), (2025, 5), (2025, 6), (2025, 7), (2025, 8), (2025, 9), (2025, 10),
                (2025, 11), (2025, 12), (2026, 1), (2026, 2), (2026, 3), (2026, 4), (2026, 5),
                (2026, 6), (2026, 7), (2026, 8), (2026, 9), (2026, 10), (2026, 11), (2026, 12),
                (2027, 1), (2027, 2), (2027, 3)]
         \<and> currentMonthIndex (generateMonths
               \<lparr>fullYear = 2025, monthIndex = 10, dayOfMonth = 15\<rparr> cal) = Some 7"
proof -
  let ?fy = "if monthIndex now < 3 then fullYear now - 1 else fullYear now"
  let ?cal = "generateMonths now cal"
  let ?w = "map yearMonth (months ?cal)"
  from assms have fy: "100 \<le> ?fy" by (simp add: clockReading_def)
  have w: "?w = [(?fy, 4), (?fy, 5), (?fy, 6), (?fy, 7), (?fy, 8), (?fy, 9), (?fy, 10),
       (?fy, 11), (?fy, 12),
       (?fy + 1, 1), (?fy + 1, 2), (?fy + 1, 3), (?fy + 1, 4), (?fy + 1, 5), (?fy + 1, 6),
       (?fy + 1, 7), (?fy + 1, 8), (?fy + 1, 9), (?fy + 1, 10), (?fy + 1, 11), (?fy + 1, 12),
       (?fy + 2, 1), (?fy + 2, 2), (?fy + 2, 3)]"
    unfolding generateMonths_fields(1) [OF assms] using generateMonths_window [OF fy] .
  have len: "length (months ?cal) = 24"
    unfolding generateMonths_fields(1) [OF assms] by (simp add: upto23)
  have hd: "hd ?w = (?fy, 4)" unfolding w by simp
  have lst: "last ?w = (?fy + 2, 3)" unfolding w by simp
  have succ: "successively (\<lambda>a b. b = followingMonth a) ?w"
    unfolding w by (simp add: followingMonth_def)
  have idx: "\<exists>k. currentMonthIndex ?cal = Some (int k) \<and> k < 24
                 \<and> ?w ! k = (fullYear now, monthIndex now + 1)"
  proof -
    let ?k = "nat (if monthIndex now < 3 then monthIndex now + 9 else monthIndex now - 3)"
    from assms have m: "0 \<le> monthIndex now" "monthIndex now \<le> 11"
      by (simp_all add: clockReading_def)
    have 1: "currentMonthIndex ?cal = Some (int ?k)"
      unfolding generateMonths_fields(2) [OF assms] using m by simp
    have 2: "?k < 24" using m by auto
    from m have "monthIndex now \<in> {0, 1, 2, 3, 4, 5, 6, 7, 8, 9, 10, 11}" by simp arith
    then have 3: "?w ! ?k = (fullYear now, monthIndex now + 1)"
      unfolding w by (elim insertE emptyE) simp_all
    from 1 2 3 show ?thesis by blast
  qed
  have now0: "clockReading \<lparr>fullYear = 2025, monthIndex = 10, dayOfMonth = 15\<rparr>"
    by (simp add: clockReading_def daysInMonth_def)
  have ex1: "map yearMonth (months (generateMonths
               \<lparr>fullYear = 2025, monthIndex = 10, dayOfMonth = 15\<rparr> cal))
             = [(2025, 4), (2025, 5), (2025, 6), (2025, 7), (2025, 8), (2025, 9), (2025, 10),
                (2025, 11), (2025, 12), (2026, 1), (2026, 2), (2026, 3), (2026, 4), (2026, 5),
                (2026, 6), (2026, 7), (2026, 8), (2026, 9), (2026, 10), (2026, 11), (2026, 12),
                (2027, 1), (2027, 2), (2027, 3)]"
    unfolding generateMonths_fields(1) [OF now0]
    using generateMonths_window [of 2025] by simp
  have ex2: "currentMonthIndex (generateMonths
               \<lparr>fullYear = 2025, monthIndex = 10, dayOfMonth = 15\<rparr> cal) = Some 7"
    unfolding generateMonths_fields(2) [OF now0] by simp
  from len hd lst succ idx ex1 ex2 show ?thesis unfolding Let_def by blast
qed

theorem generateMonths_fiscal_window_witness:
  "clockReading \<lparr>fullYear = 2026, monthIndex = 1, dayOfMonth = 28\<rparr>
   \<and> length (months (generateMonths \<lparr>fullYear = 2026, monthIndex = 1, dayOfMonth = 28\<rparr>
        initialCalendar)) = 24
   \<and> hd (map yearMonth (months (generateMonths
        \<lparr>fullYear = 2026, monthIndex = 1, dayOfMonth = 28\<rparr> initialCalendar))) = (2025, 4)
   \<and> last (map yearMonth (months (generateMonths
        \<lparr>fullYear = 2026, monthIndex = 1, dayOfMonth = 28\<rparr> initialCalendar))) = (2027, 3)
   \<and> currentMonthIndex (generateMonths \<lparr>fullYear = 2026, monthIndex = 1, dayOfMonth = 28\<rparr>
        initialCalendar) = Some 10
   \<and> map ms_label (months (generateMonths \<lparr>fullYear = 2025, monthIndex = 10, dayOfMonth = 15\<rparr>
        initialCalendar))
      = [''2025/04'', ''2025/05'', ''2025/06'', ''2025/07'', ''2025/08'', ''2025/09'',
         ''2025/10'', ''2025/11'', ''2025/12'', ''2026/01'', ''2026/02'', ''2026/03'',
         ''2026/04'', ''2026/05'', ''2026/06'', ''2026/07'', ''2026/08'', ''2026/09'',
         ''2026/10'', ''2026/11'', ''2026/12'', ''2027/01'', ''2027/02'', ''2027/03'']"
proof -
  let ?now = "\<lparr>fullYear = 2026, monthIndex = 1, dayOfMonth = 28\<rparr>"
  have h: "clockReading ?now"
    by (simp add: clockReading_def daysInMonth_def isLeapYear_def)
  have idx: "currentMonthIndex (generateMonths ?now initialCalendar) = Some 10"
    unfolding generateMonths_fields(2) [OF h] by simp
  have now0: "clockReading \<lparr>fullYear = 2025, monthIndex = 10, dayOfMonth = 15\<rparr>"
    by (simp add: clockReading_def daysInMonth_def)
  have labels: "map ms_label (months (generateMonths \<lparr>fullYear = 2025, monthIndex = 10, dayOfMonth = 15\<rparr>
        initialCalendar))
      = [''2025/04'', ''2025/05'', ''2025/06'', ''2025/07'', ''2025/08'', ''2025/09'',
         ''2025/10'', ''2025/11'', ''2025/12'', ''2026/01'', ''2026/02'', ''2026/03'',
         ''2026/04'', ''2026/05'', ''2026/06'', ''2026/07'', ''2026/08'', ''2026/09'',
         ''2026/10'', ''2026/11'', ''2026/12'', ''2027/01'', ''2027/02'', ''2027/03'']"
    unfolding generateMonths_fields(1) [OF now0]
    by (simp add: upto23 monthSlotAt_def newDateYMD_first numberToString_def
        digitsNat.simps padStart_def)
  from generateMonths_fiscal_window [OF h, of initialCalendar] h idx labels
  show ?thesis by (simp add: Let_def)
qed

subsection \<open>applyFilters\<close>

lemma toLowerChar_idem: "toLowerChar (toLowerChar c) = toLowerChar c"
  by (cases c) (simp add: toLowerChar_def isUpper_def)

lemma toLowerCase_idem: "toLowerCase (toLowerCase s) = toLowerCase s"
  by (simp add: toLowerCase_def toLowerChar_idem)

lemma toLowerCase_Nil_iff: "toLowerCase s = [] \<longleftrightarrow> s = []"
  by (simp add: toLowerCase_def)

lemma substringIgnoringCase_iff:
  "substringIgnoringCase needle hay \<longleftrightarrow> includes_str (toLowerCase hay) (toLowerCase needle)"
  by (simp add: substringIgnoringCase_def includes_iff)

lemma hasMatchingTheme_iff:
  "list_ex (hasTheme selected) (confThemesOf conf) \<longleftrightarrow> effectiveThemes conf \<inter> selected \<noteq> {}"
  by (auto simp: confThemesOf_def effectiveThemes_def hasTheme_def list_ex_iff
      split: option.splits)

lemma themeMatch_iff:
  "s \<noteq> [] \<Longrightarrow>
   list_ex (\<lambda>theme. includes_str (toLowerCase (orEmpty theme)) s) (confThemesOf conf)
     \<longleftrightarrow> (\<exists>t \<in> effectiveThemes conf. includes_str (toLowerCase t) s)"
  by (auto simp: confThemesOf_def effectiveThemes_def orEmpty_def list_ex_iff toLowerCase_def
      split: option.splits)

lemma filterCallback_included:
  assumes "f_search cf = toLowerCase (f_search cf)"
  shows "filterCallback cf conf = included cf conf"
proof (cases "f_search cf = []")
  case True
  then show ?thesis
    by (auto simp: filterCallback_def included_def Let_def hasMatchingTheme_iff)
next
  case False
  have low: "toLowerCase (f_search cf) = f_search cf" using assms by simp
  show ?thesis
    unfolding filterCallback_def included_def Let_def hasMatchingTheme_iff
      substringIgnoringCase_iff low themeMatch_iff [OF False]
    using False by auto
qed

text \<open>
  C1. When no theme is selected, applyFilters leaves no conference in the filtered
  list, whatever the conferences and the search string are.
\<close>

theorem applyFilters_no_theme_selected:
  "f_themes (currentFilters cal) = {} \<Longrightarrow> filteredConferences (applyFilters cal) = []"
  by (simp add: applyFilters_def filterCallback_def)

theorem applyFilters_no_theme_selected_witness:
  "f_themes (currentFilters (calendarOf [conferenceACM, conferenceLegacy] {} ''sosp'')) = {}
   \<and> filteredConferences (applyFilters (calendarOf [conferenceACM, conferenceLegacy] {} ''sosp'')) = []"
  using applyFilters_no_theme_selected [of "calendarOf [conferenceACM, conferenceLegacy] {} ''sosp''"]
  by (simp add: calendarOf_def)

text \<open>
  C2. The search string of the calendar is the empty string that the constructor sets
  or the lower-cased text that the handler of the search box stores. For every stored
  search string in lower case, and through the handler for every text the user types,
  the filtered list is exactly the subsequence of the conferences that the specification
  includes, in their order: those whose effective themes meet the selected themes and
  which, for a non-empty search string, contain it in the name, the short name or an
  effective theme, letter case ignored.
\<close>

theorem applyFilters_included:
  "(f_search (currentFilters cal) = toLowerCase (f_search (currentFilters cal)) \<longrightarrow>
      filteredConferences (applyFilters cal)
        = filter (included (currentFilters cal)) (conferences cal))
   \<and> filteredConferences (onSearchInput v cal)
        = filter (included ((currentFilters cal)\<lparr>f_search := v\<rparr>)) (conferences cal)"
proof (intro conjI impI)
  assume "f_search (currentFilters cal) = toLowerCase (f_search (currentFilters cal))"
  then show "filteredConferences (applyFilters cal)
      = filter (included (currentFilters cal)) (conferences cal)"
    by (simp add: applyFilters_def filterCallback_included cong: filter_cong)
next
  let ?cf = "(currentFilters cal)\<lparr>f_search := toLowerCase v\<rparr>"
  have "f_search ?cf = toLowerCase (f_search ?cf)" by (simp add: toLowerCase_idem)
  then have 1: "filterCallback ?cf = included ?cf"
    using filterCallback_included by blast
  have 2: "included ?cf = included ((currentFilters cal)\<lparr>f_search := v\<rparr>)"
    by (rule ext)
      (simp add: included_def substringIgnoringCase_def toLowerCase_idem toLowerCase_Nil_iff)
  show "filteredConferences (onSearchInput v cal)
      = filter (included ((currentFilters cal)\<lparr>f_search := v\<rparr>)) (conferences cal)"
    by (simp add: onSearchInput_def applyFilters_def 1 2)
qed

theorem applyFilters_included_witness:
  "f_search (currentFilters (calendarOf [conferenceLegacy, conferenceACM]
       {''01. Systems'', ''02. Machine Learning''} ''acm''))
     = toLowerCase (f_search (currentFilters (calendarOf [conferenceLegacy, conferenceACM]
       {''01. Systems'', ''02. Machine Learning''} ''acm'')))
   \<and> filteredConferences (applyFilters (calendarOf [conferenceLegacy, conferenceACM]
       {''01. Systems'', ''02. Machine Learning''} ''acm'')) = [conferenceACM]
   \<and> filter (included (currentFilters (calendarOf [conferenceLegacy, conferenceACM]
       {''01. Systems'', ''02. Machine Learning''} ''acm'')))
       (conferences (calendarOf [conferenceLegacy, conferenceACM]
       {''01. Systems'', ''02. Machine Learning''} ''acm'')) = [conferenceACM]
   \<and> filteredConferences (onSearchInput ''Machine'' (calendarOf [conferenceLegacy, conferenceACM]
       {''01. Systems'', ''02. Machine Learning''} [])) = [conferenceLegacy]"
proof -
  let ?cal = "calendarOf [conferenceLegacy, conferenceACM]
       {''01. Systems'', ''02. Machine Learning''} ''acm''"
  let ?cal' = "calendarOf [conferenceLegacy, conferenceACM]
       {''01. Systems'', ''02. Machine Learning''} []"
  have h: "f_search (currentFilters ?cal) = toLowerCase (f_search (currentFilters ?cal))"
    by (simp add: calendarOf_def toLowerCase_def toLowerChar_def isUpper_def)
  have 1: "filteredConferences (applyFilters ?cal) = [conferenceACM]"
    by (simp add: applyFilters_def calendarOf_def filterCallback_def conferenceACM_def
        conferenceLegacy_def confThemesOf_def hasTheme_def Let_def orEmpty_def
        toLowerCase_def toLowerChar_def isUpper_def)
  have 2: "filteredConferences (onSearchInput ''Machine'' ?cal') = [conferenceLegacy]"
    by (simp add: onSearchInput_def applyFilters_def calendarOf_def filterCallback_def
        conferenceACM_def conferenceLegacy_def confThemesOf_def hasTheme_def Let_def
        orEmpty_def toLowerCase_def toLowerChar_def isUpper_def)
  from applyFilters_included [of ?cal "''Machine''"] h 1 2 show ?thesis by simp
qed

subsection \<open>getDeadlinesInMonth\<close>

lemma inMonth_parsed:
  "truthy x \<and> inMonth (newDateOf nd x) month \<longleftrightarrow> parsedYearMonth nd x = Some (yearMonth month)"
  by (auto simp: truthy_def inMonth_def newDateOf_def parsedYearMonth_def yearMonth_def
      getFullYear_def getMonth_def plusOne_def split: option.splits)

lemma deadlineCallback_eq:
  "deadlineCallback nd conf month y acc d =
     acc @ (if parsedYearMonth nd (d_date d) = Some (yearMonth month)
            then [deadlineEntry conf y d] else [])"
  using inMonth_parsed [of "d_date d" nd month]
  by (auto simp: deadlineCallback_def Let_def)

lemma foldl_deadlineCallback:
  "foldl (deadlineCallback nd conf month y) acc ds =
     acc @ map (deadlineEntry conf y)
             (filter (\<lambda>d. parsedYearMonth nd (d_date d) = Some (yearMonth month)) ds)"
  by (induction ds arbitrary: acc) (simp_all add: deadlineCallback_eq)

lemma yearCallback_eq:
  "yearCallback nd conf month acc (y, yi) =
     acc @ map (deadlineEntry conf y) (deadlinesInSlot nd month yi)
         @ conferenceInSlot nd conf month y yi"
proof -
  have 1: "(case yi_deadlines yi of None \<Rightarrow> acc
            | Some ds \<Rightarrow> foldl (deadlineCallback nd conf month y) acc ds)
           = acc @ map (deadlineEntry conf y) (deadlinesInSlot nd month yi)"
    by (simp add: deadlinesInSlot_def deadlinesOf_def foldl_deadlineCallback split: option.splits)
  show ?thesis
  proof (cases "yi_conference_dates yi")
    case None
    then show ?thesis
      by (simp add: yearCallback_def Let_def 1 conferenceInSlot_def)
  next
    case (Some dates)
    with inMonth_parsed [of "cd_start dates" nd month] show ?thesis
      by (auto simp: yearCallback_def Let_def 1 conferenceInSlot_def)
  qed
qed

lemma foldl_yearCallback:
  "foldl (yearCallback nd conf month) acc info =
     acc @ concat (map (yearEntries nd conf month) info)"
proof (induction info arbitrary: acc)
  case Nil
  then show ?case by simp
next
  case (Cons p info)
  obtain y yi where p: "p = (y, yi)" by (cases p)
  show ?case by (simp add: Cons.IH p yearCallback_eq yearEntries_def)
qed

lemma getDeadlinesInMonth_eq:
  "getDeadlinesInMonth nd conf month = concat (map (yearEntries nd conf month) (informationOf conf))"
  by (simp add: getDeadlinesInMonth_def informationOf_def foldl_yearCallback split: option.splits)

lemma length_filter_distinct_map:
  "distinct (map f xs) \<Longrightarrow>
   length (filter (\<lambda>x. v = Some (f x)) xs) = (if \<exists>x \<in> set xs. v = Some (f x) then 1 else 0)"
  by (induction xs) (auto simp: filter_empty_conv)

lemma parse_iso: "parsedYearMonth (isoDateParser tz) (Some ''2026-03-10'') = Some (2026, 3)"
  by (simp add: parsedYearMonth_def isoDateParser_def isDigit_def digitValue_def daysInMonth_def
      normalizeDay.simps)


lemma distinct_window:
  assumes "clockReading now"
  shows "distinct (map yearMonth (months (generateMonths now cal)))"
proof -
  let ?fy = "if monthIndex now < 3 then fullYear now - 1 else fullYear now"
  from assms have fy: "100 \<le> ?fy" by (simp add: clockReading_def)
  show ?thesis
    unfolding generateMonths_fields(1) [OF assms] generateMonths_window [OF fy]
    by simp
qed

text \<open>
  What getDeadlinesInMonth emits, for every parser: year by year, one entry for each
  deadline record whose date, as \<^verbatim>\<open>new Date\<close> and the local getters read it, has
  the (year, month) of the slot, followed by the conference entry of that year if there
  is one. Every matching record gives an entry of its own, which carries the fields of
  the record, the short name of the conference and the year label. The slots of the
  generated window have different (year, month) pairs, so a record is emitted for one
  slot of the window or for none. A deadline dated 2026-03-10 is emitted for March
  2026 at every offset of the time zone.
\<close>

lemma deadlineEntry_fields:
  "e_type (deadlineEntry conf confYear d) = d_type d"
  "e_date (deadlineEntry conf confYear d) = d_date d"
  "e_endDate (deadlineEntry conf confYear d) = None"
  "e_label (deadlineEntry conf confYear d) = d_label d"
  "e_is_predicted (deadlineEntry conf confYear d) = d_is_predicted d"
  "e_conferenceName (deadlineEntry conf confYear d) = c_short_name conf"
  "e_conferenceYear (deadlineEntry conf confYear d) = confYear"
  by (simp_all add: deadlineEntry_def)

lemma deadlineEntry_inj:
  "deadlineEntry conf confYear d = deadlineEntry conf confYear d' \<longleftrightarrow> d = d'"
  by (cases d, cases d') (auto simp: deadlineEntry_def)

lemma getDeadlinesInMonth_buckets:
  "getDeadlinesInMonth nd conf month
     = concat (map (\<lambda>(confYear, yearInfo).
                 map (deadlineEntry conf confYear) (deadlinesInSlot nd month yearInfo)
                   @ conferenceInSlot nd conf month confYear yearInfo)
               (informationOf conf))
   \<and> (clockReading now \<longrightarrow>
        length (filter (\<lambda>m. parsedYearMonth nd (d_date d) = Some (yearMonth m))
                  (months (generateMonths now cal)))
          = (if \<exists>m \<in> set (months (generateMonths now cal)).
                  parsedYearMonth nd (d_date d) = Some (yearMonth m)
             then 1 else 0))
   \<and> getDeadlinesInMonth (isoDateParser tz)
        (conferenceWith [(''2026'', yearWith [deadlineOn ''submission'' ''2026-03-10''])]) month
       = (if yearMonth month = (2026, 3)
          then [deadlineEntry (conferenceWith
                  [(''2026'', yearWith [deadlineOn ''submission'' ''2026-03-10''])])
                  ''2026'' (deadlineOn ''submission'' ''2026-03-10'')]
          else [])
   \<and> length (getDeadlinesInMonth nd conf month)
       = (\<Sum>(confYear, yearInfo) \<leftarrow> informationOf conf.
            length (deadlinesInSlot nd month yearInfo)
              + length (conferenceInSlot nd conf month confYear yearInfo))"
proof (intro conjI impI)
  have "yearEntries nd conf month = (\<lambda>(confYear, yearInfo).
                 map (deadlineEntry conf confYear) (deadlinesInSlot nd month yearInfo)
                   @ conferenceInSlot nd conf month confYear yearInfo)"
    by (rule ext) (simp add: yearEntries_def split_beta)
  then show "getDeadlinesInMonth nd conf month
     = concat (map (\<lambda>(confYear, yearInfo).
                 map (deadlineEntry conf confYear) (deadlinesInSlot nd month yearInfo)
                   @ conferenceInSlot nd conf month confYear yearInfo)
               (informationOf conf))"
    by (simp add: getDeadlinesInMonth_eq)
next
  assume "clockReading now"
  then have "distinct (map yearMonth (months (generateMonths now cal)))"
    by (rule distinct_window)
  then show "length (filter (\<lambda>m. parsedYearMonth nd (d_date d) = Some (yearMonth m))
                  (months (generateMonths now cal)))
          = (if \<exists>m \<in> set (months (generateMonths now cal)).
                  parsedYearMonth nd (d_date d) = Some (yearMonth m)
             then 1 else 0)"
    by (rule length_filter_distinct_map)
next
  show "getDeadlinesInMonth (isoDateParser tz)
        (conferenceWith [(''2026'', yearWith [deadlineOn ''submission'' ''2026-03-10''])]) month
       = (if yearMonth month = (2026, 3)
          then [deadlineEntry (conferenceWith
                  [(''2026'', yearWith [deadlineOn ''submission'' ''2026-03-10''])])
                  ''2026'' (deadlineOn ''submission'' ''2026-03-10'')]
          else [])"
    by (simp add: getDeadlinesInMonth_eq informationOf_def conferenceWith_def yearEntries_def
        deadlinesInSlot_def deadlinesOf_def yearWith_def conferenceInSlot_def deadlineOn_def
        parse_iso)
next
  have "length \<circ> yearEntries nd conf month = (\<lambda>(confYear, yearInfo).
            length (deadlinesInSlot nd month yearInfo)
              + length (conferenceInSlot nd conf month confYear yearInfo))"
    by (rule ext) (simp add: yearEntries_def split_beta)
  then show "length (getDeadlinesInMonth nd conf month)
       = (\<Sum>(confYear, yearInfo) \<leftarrow> informationOf conf.
            length (deadlinesInSlot nd month yearInfo)
              + length (conferenceInSlot nd conf month confYear yearInfo))"
    by (simp add: getDeadlinesInMonth_eq length_concat)
qed

lemma parse_iso_east:
  "0 \<le> tz \<Longrightarrow> isoDateParser tz s = parseDateOnly s"
  by (simp add: isoDateParser_def split: option.splits)

lemma clockReading_now2025: "clockReading now2025"
  by (simp add: clockReading_def now2025_def daysInMonth_def)

lemma window_now2025:
  "map yearMonth (months (generateMonths now2025 cal))
     = [(2025, 4), (2025, 5), (2025, 6), (2025, 7), (2025, 8), (2025, 9), (2025, 10),
        (2025, 11), (2025, 12), (2026, 1), (2026, 2), (2026, 3), (2026, 4), (2026, 5),
        (2026, 6), (2026, 7), (2026, 8), (2026, 9), (2026, 10), (2026, 11), (2026, 12),
        (2027, 1), (2027, 2), (2027, 3)]"
  unfolding generateMonths_fields(1) [OF clockReading_now2025]
  using generateMonths_window [of 2025] by (simp add: now2025_def)

lemma getDeadlinesInMonth_buckets_example:
  "clockReading now2025
   \<and> getDeadlinesInMonth (isoDateParser 540) conferenceBusy (slot 2026 3)
       = [\<lparr>e_type = ''submission'', e_date = Some ''2026-03-10'', e_endDate = None,
           e_label = ''submission'', e_is_predicted = Some False,
           e_conferenceName = Some ''SOSP'', e_conferenceYear = ''2026''\<rparr>,
          \<lparr>e_type = ''abstract'', e_date = Some ''2026-03-03'', e_endDate = None,
           e_label = ''abstract'', e_is_predicted = Some False,
           e_conferenceName = Some ''SOSP'', e_conferenceYear = ''2026''\<rparr>]
   \<and> length (filter (\<lambda>m. parsedYearMonth (isoDateParser 540)
                           (d_date (deadlineOn ''submission'' ''2026-03-10''))
                         = Some (yearMonth m))
               (months (generateMonths now2025 initialCalendar))) = 1"
proof -
  have p: "parsedYearMonth (isoDateParser 540) (Some s)
      = (if s = [] then None
         else map_option (\<lambda>d. (fullYear d, monthIndex d + 1)) (parseDateOnly s))" for s
    by (simp add: parsedYearMonth_def parse_iso_east)
  have b: "concat (map (\<lambda>(confYear, yearInfo).
                 map (deadlineEntry conferenceBusy confYear)
                     (deadlinesInSlot (isoDateParser 540) (slot 2026 3) yearInfo)
                   @ conferenceInSlot (isoDateParser 540) conferenceBusy (slot 2026 3)
                       confYear yearInfo)
               (informationOf conferenceBusy))
       = [deadlineEntry conferenceBusy ''2026'' (deadlineOn ''submission'' ''2026-03-10''),
          deadlineEntry conferenceBusy ''2026'' (deadlineOn ''abstract'' ''2026-03-03'')]"
    by (simp add: informationOf_def conferenceBusy_def conferenceWith_def
        deadlinesInSlot_def deadlinesOf_def yearWith_def yearHeld_def conferenceInSlot_def
        deadlineOn_def p isDigit_def digitValue_def daysInMonth_def yearMonth_def slot_def)
  have w: "\<exists>m \<in> set (months (generateMonths now2025 initialCalendar)).
            parsedYearMonth (isoDateParser 540)
              (d_date (deadlineOn ''submission'' ''2026-03-10'')) = Some (yearMonth m)"
  proof -
    have "(2026, 3) \<in> set (map yearMonth (months (generateMonths now2025 initialCalendar)))"
      unfolding window_now2025 by simp
    then show ?thesis
      by (auto simp: deadlineOn_def parse_iso)
  qed
  from getDeadlinesInMonth_buckets [of "isoDateParser 540" conferenceBusy "slot 2026 3"
      now2025 "deadlineOn ''submission'' ''2026-03-10''" initialCalendar]
    clockReading_now2025 b w
  show ?thesis
    by (simp add: deadlineEntry_def deadlineOn_def conferenceBusy_def conferenceWith_def
        conferenceACM_def)
qed

text \<open>
  C4. In a browser whose time zone is behind UTC (here by eight hours) a deadline
  dated 2026-03-01 gives no entry for the slot of March 2026: its entry is emitted for
  the slot of February 2026, and the marker reads ``2/28''. The date-only string is
  read as midnight UTC and the getters return the local date, the day before. With an
  offset of zero or more the entry is in March (\<open>deadline_first_of_month_east_of_UTC\<close>
  below).
\<close>

theorem deadline_first_of_month_west_of_UTC:
  "getDeadlinesInMonth (isoDateParser (-480)) conferenceMarchFirst (slot 2026 3) = []
   \<and> getDeadlinesInMonth (isoDateParser (-480)) conferenceMarchFirst (slot 2026 2)
       = [\<lparr>e_type = ''submission'', e_date = Some ''2026-03-01'', e_endDate = None,
           e_label = ''submission'', e_is_predicted = Some False,
           e_conferenceName = Some ''SOSP'', e_conferenceYear = ''2026''\<rparr>]
   \<and> m_textContent (fst (createDeadlineMarker (isoDateParser (-480))
         \<lparr>e_type = ''submission'', e_date = Some ''2026-03-01'', e_endDate = None,
          e_label = ''submission'', e_is_predicted = Some False,
          e_conferenceName = Some ''SOSP'', e_conferenceYear = ''2026''\<rparr> []))
       = ''2/28''"
  by (simp add: getDeadlinesInMonth_def conferenceMarchFirst_def conferenceWith_def
      conferenceACM_def yearWith_def deadlineOn_def yearCallback_def deadlineCallback_def
      deadlineEntry_def truthy_def newDateOf_def inMonth_def getFullYear_def getMonth_def
      getDate_def plusOne_def slot_def isoDateParser_def isDigit_def digitValue_def
      daysInMonth_def isLeapYear_def normalizeDay.simps createDeadlineMarker_def
      formatNumber_def numberToString_def digitsNat.simps orFalse_def Let_def)

lemma deadline_first_of_month_east_of_UTC:
  "0 \<le> tz \<Longrightarrow>
   getDeadlinesInMonth (isoDateParser tz) conferenceMarchFirst (slot 2026 2) = []
   \<and> getDeadlinesInMonth (isoDateParser tz) conferenceMarchFirst (slot 2026 3)
       = [\<lparr>e_type = ''submission'', e_date = Some ''2026-03-01'', e_endDate = None,
           e_label = ''submission'', e_is_predicted = Some False,
           e_conferenceName = Some ''SOSP'', e_conferenceYear = ''2026''\<rparr>]
   \<and> m_textContent (fst (createDeadlineMarker (isoDateParser tz)
         \<lparr>e_type = ''submission'', e_date = Some ''2026-03-01'', e_endDate = None,
          e_label = ''submission'', e_is_predicted = Some False,
          e_conferenceName = Some ''SOSP'', e_conferenceYear = ''2026''\<rparr> []))
       = ''3/1''"
  by (simp add: getDeadlinesInMonth_def conferenceMarchFirst_def conferenceWith_def
      conferenceACM_def yearWith_def deadlineOn_def yearCallback_def deadlineCallback_def
      deadlineEntry_def truthy_def newDateOf_def inMonth_def getFullYear_def getMonth_def
      getDate_def plusOne_def slot_def parse_iso_east isDigit_def digitValue_def
      daysInMonth_def createDeadlineMarker_def
      formatNumber_def numberToString_def digitsNat.simps orFalse_def Let_def)

subsection \<open>Markers, warnings and the conference entry\<close>

lemma months_now2025:
  "months (generateMonths now2025 cal)
     = [slot 2025 4, slot 2025 5, slot 2025 6, slot 2025 7, slot 2025 8, slot 2025 9,
        slot 2025 10, slot 2025 11, slot 2025 12, slot 2026 1, slot 2026 2, slot 2026 3,
        slot 2026 4, slot 2026 5, slot 2026 6, slot 2026 7, slot 2026 8, slot 2026 9,
        slot 2026 10, slot 2026 11, slot 2026 12, slot 2027 1, slot 2027 2, slot 2027 3]"
  unfolding generateMonths_fields(1) [OF clockReading_now2025]
  by (simp add: now2025_def upto23 monthSlotAt_def newDateYMD_first slot_def)

text \<open>
  C5. In a browser whose time zone is behind UTC (here by five hours) the conference
  dates 2026-06-01 to 2026-06-05 give no entry for the slot of June 2026: the one entry
  lands in the slot of May 2026 and its marker reads ``5/31-6/4''. The date-only string
  is read as midnight UTC and the getters return the local date, the day before. With
  an offset of zero or more the entry is in June and reads ``6/1-6/5''
  (\<open>conference_dates_east_of_UTC\<close> below).
\<close>

theorem conference_dates_west_of_UTC:
  "getDeadlinesInMonth (isoDateParser (-300)) conferenceJune (slot 2026 6) = []
   \<and> getDeadlinesInMonth (isoDateParser (-300)) conferenceJune (slot 2026 5)
       = [conferenceEntry conferenceJune ''2026'' (yearHeld ''2026-06-01'' ''2026-06-05'')
            \<lparr>cd_start = Some ''2026-06-01'', cd_end = Some ''2026-06-05''\<rparr>]
   \<and> m_textContent (fst (createDeadlineMarker (isoDateParser (-300))
         (conferenceEntry conferenceJune ''2026'' (yearHeld ''2026-06-01'' ''2026-06-05'')
            \<lparr>cd_start = Some ''2026-06-01'', cd_end = Some ''2026-06-05''\<rparr>) []))
       = ''5/31-6/4''"
  by (simp add: getDeadlinesInMonth_def conferenceJune_def conferenceWith_def yearHeld_def
      yearCallback_def truthy_def newDateOf_def inMonth_def getFullYear_def getMonth_def
      getDate_def plusOne_def slot_def isoDateParser_def isDigit_def digitValue_def
      daysInMonth_def normalizeDay.simps createDeadlineMarker_def conferenceEntry_def
      formatNumber_def numberToString_def digitsNat.simps orFalse_def Let_def)

lemma conference_dates_east_of_UTC:
  "0 \<le> tz \<Longrightarrow>
   getDeadlinesInMonth (isoDateParser tz) conferenceJune (slot 2026 6)
       = [conferenceEntry conferenceJune ''2026'' (yearHeld ''2026-06-01'' ''2026-06-05'')
            \<lparr>cd_start = Some ''2026-06-01'', cd_end = Some ''2026-06-05''\<rparr>]
   \<and> m_textContent (fst (createDeadlineMarker (isoDateParser tz)
         (conferenceEntry conferenceJune ''2026'' (yearHeld ''2026-06-01'' ''2026-06-05'')
            \<lparr>cd_start = Some ''2026-06-01'', cd_end = Some ''2026-06-05''\<rparr>) []))
       = ''6/1-6/5''"
  by (simp add: getDeadlinesInMonth_def conferenceJune_def conferenceWith_def yearHeld_def
      yearCallback_def truthy_def newDateOf_def inMonth_def getFullYear_def getMonth_def
      getDate_def plusOne_def slot_def parse_iso_east isDigit_def digitValue_def
      daysInMonth_def createDeadlineMarker_def conferenceEntry_def
      formatNumber_def numberToString_def digitsNat.simps orFalse_def Let_def)

lemma digit_nth: "n < 10 \<Longrightarrow> isDigit (''0123456789'' ! n)"
proof -
  assume "n < 10"
  then have "n \<in> {0, 1, 2, 3, 4, 5, 6, 7, 8, 9}" by auto
  then show ?thesis by (elim insertE emptyE) (simp_all add: isDigit_def)
qed

lemma digitsNat_digits: "digitsNat n \<noteq> [] \<and> list_all isDigit (digitsNat n)"
proof (induction n rule: digitsNat.induct)
  case (1 n)
  show ?case
  proof (cases "n < 10")
    case True
    then show ?thesis by (simp add: digitsNat.simps [of n] digit_nth)
  next
    case False
    with "1.IH" show ?thesis by (simp add: digitsNat.simps [of n] digit_nth)
  qed
qed

lemma numberToString_hd: "numberToString n \<noteq> [] \<and> hd (numberToString n) \<noteq> CHR ''N''"
proof (cases "n < 0")
  case True
  then show ?thesis by (simp add: numberToString_def)
next
  case False
  from digitsNat_digits [of "nat n"] obtain c cs where c: "digitsNat (nat n) = c # cs"
    and "isDigit c" by (cases "digitsNat (nat n)") auto
  then have "c \<noteq> CHR ''N''" by (auto simp: isDigit_def)
  with False c show ?thesis by (simp add: numberToString_def)
qed

lemma number_text_not_NaN: "numberToString n @ rest \<noteq> ''NaN/NaN''"
proof
  assume a: "numberToString n @ rest = ''NaN/NaN''"
  from numberToString_hd [of n] obtain c cs where c: "numberToString n = c # cs"
    and "c \<noteq> CHR ''N''" by (cases "numberToString n") auto
  with a show False by simp
qed

lemma createDeadlineMarker_console:
  assumes "newDateOf nd (e_date e) = Some dt"
  shows "snd (createDeadlineMarker nd e console) = console"
  using assms number_text_not_NaN numberToString_hd
  by (simp add: createDeadlineMarker_def Let_def formatNumber_def getMonth_def plusOne_def)

lemma parsed_valid:
  "parsedYearMonth nd x = Some ym \<Longrightarrow> \<exists>dt. newDateOf nd x = Some dt"
  by (auto simp: parsedYearMonth_def newDateOf_def split: option.splits if_splits)

lemma emitted_in_month:
  assumes "e \<in> set (getDeadlinesInMonth nd conf month)"
  shows "parsedYearMonth nd (e_date e) = Some (yearMonth month)"
proof -
  from assms obtain y yi where "e \<in> set (yearEntries nd conf month (y, yi))"
    by (auto simp: getDeadlinesInMonth_eq)
  then consider d where "d \<in> set (deadlinesInSlot nd month yi)" "e = deadlineEntry conf y d"
    | "e \<in> set (conferenceInSlot nd conf month y yi)"
    by (auto simp: yearEntries_def)
  then show ?thesis
  proof cases
    case 1
    then have "parsedYearMonth nd (d_date d) = Some (yearMonth month)"
      by (simp add: deadlinesInSlot_def)
    with 1(2) show ?thesis by (simp add: deadlineEntry_def)
  next
    case 2
    then obtain dates where "parsedYearMonth nd (cd_start dates) = Some (yearMonth month)"
      and "e = conferenceEntry conf y yi dates"
      by (auto simp: conferenceInSlot_def split: option.splits if_splits)
    then show ?thesis by (simp add: conferenceEntry_def)
  qed
qed

lemma emitted_date_valid:
  assumes "e \<in> set (getDeadlinesInMonth nd conf month)"
  shows "\<exists>dt. newDateOf nd (e_date e) = Some dt"
  using emitted_in_month [OF assms] by (rule parsed_valid)

lemma foldl_markerCallback_console:
  "(\<And>e. e \<in> set es \<Longrightarrow> \<exists>dt. newDateOf nd (e_date e) = Some dt) \<Longrightarrow>
   snd (foldl (markerCallback nd) state es) = snd state"
proof (induction es arbitrary: state)
  case Nil
  then show ?case by simp
next
  case (Cons e es)
  from Cons.prems obtain dt where "newDateOf nd (e_date e) = Some dt" by auto
  then have "snd (markerCallback nd state e) = snd state"
    by (simp add: markerCallback_def Let_def createDeadlineMarker_console)
  with Cons show ?case by simp
qed

lemma monthCallback_console:
  "snd (monthCallback nd conf state month) = snd state"
  using foldl_markerCallback_console [of "getDeadlinesInMonth nd conf month" nd "([], snd state)"]
    emitted_date_valid [of _ nd conf month]
  by (simp add: monthCallback_def Let_def)

lemma timelineColumns_never_warns:
  "snd (timelineColumns nd ms conf console) = console"
proof -
  have "snd (foldl (monthCallback nd conf) state ms) = snd state" for state
    by (induction ms arbitrary: state) (simp_all add: monthCallback_console)
  then show ?thesis by (simp add: timelineColumns_def)
qed

lemma yearEntries_short_name:
  "c_short_name c = c_short_name c' \<Longrightarrow> yearEntries nd c month = yearEntries nd c' month"
  by (rule ext)
    (simp add: yearEntries_def deadlineEntry_def conferenceEntry_def conferenceInSlot_def
      split: option.splits)

text \<open>
  What the code does with a date that does not parse: a deadline record whose date is
  absent, empty or unparseable gives no entry in any month slot, and the result is what
  it is without that record; conference dates whose start does not parse give no entry
  either; and rendering the month columns of a conference writes nothing to the console.
\<close>

lemma unparseable_dates_excluded:
  assumes "parsedYearMonth nd (d_date d) = None"
  shows "getDeadlinesInMonth nd
           (conf\<lparr>c_information := Some (before @
              (confYear, yearInfo\<lparr>yi_deadlines := Some (ds1 @ d # ds2)\<rparr>) # after)\<rparr>) month
         = getDeadlinesInMonth nd
           (conf\<lparr>c_information := Some (before @
              (confYear, yearInfo\<lparr>yi_deadlines := Some (ds1 @ ds2)\<rparr>) # after)\<rparr>) month
       \<and> (\<forall>e \<in> set (getDeadlinesInMonth nd conf' month). e_date e \<noteq> d_date d)
       \<and> snd (timelineColumns nd ms conf' console) = console
       \<and> (yi_conference_dates yearInfo' = Some dates
            \<and> parsedYearMonth nd (cd_start dates) = None
          \<longrightarrow> yearCallback nd conf' month acc (confYear, yearInfo')
                = acc @ map (deadlineEntry conf' confYear) (deadlinesInSlot nd month yearInfo'))"
proof -
  let ?c1 = "conf\<lparr>c_information := Some (before @
              (confYear, yearInfo\<lparr>yi_deadlines := Some (ds1 @ d # ds2)\<rparr>) # after)\<rparr>"
  let ?c2 = "conf\<lparr>c_information := Some (before @
              (confYear, yearInfo\<lparr>yi_deadlines := Some (ds1 @ ds2)\<rparr>) # after)\<rparr>"
  have y: "yearEntries nd ?c1 month = yearEntries nd ?c2 month"
    by (rule yearEntries_short_name) simp
  from assms have "yearEntries nd ?c2 month (confYear, yearInfo\<lparr>yi_deadlines := Some (ds1 @ d # ds2)\<rparr>)
      = yearEntries nd ?c2 month (confYear, yearInfo\<lparr>yi_deadlines := Some (ds1 @ ds2)\<rparr>)"
    by (simp add: yearEntries_def deadlinesInSlot_def deadlinesOf_def conferenceInSlot_def
        conferenceEntry_def split: option.splits)
  then have 1: "getDeadlinesInMonth nd ?c1 month = getDeadlinesInMonth nd ?c2 month"
    by (simp add: getDeadlinesInMonth_eq informationOf_def y)
  have 2: "\<forall>e \<in> set (getDeadlinesInMonth nd conf' month). e_date e \<noteq> d_date d"
    using assms emitted_in_month [of _ nd conf' month] by fastforce
  have 3: "snd (timelineColumns nd ms conf' console) = console"
    by (rule timelineColumns_never_warns)
  have 4: "yi_conference_dates yearInfo' = Some dates
            \<and> parsedYearMonth nd (cd_start dates) = None
          \<longrightarrow> yearCallback nd conf' month acc (confYear, yearInfo')
                = acc @ map (deadlineEntry conf' confYear) (deadlinesInSlot nd month yearInfo')"
    by (simp add: yearCallback_eq conferenceInSlot_def)
  from 1 2 3 4 show ?thesis by blast
qed

lemma parse_unparseable:
  "parsedYearMonth (isoDateParser tz) (Some []) = None"
  "parsedYearMonth (isoDateParser tz) (Some ''TBD'') = None"
  "parsedYearMonth (isoDateParser tz) None = None"
  by (simp_all add: parsedYearMonth_def isoDateParser_def)

lemma unparseable_dates_excluded_example:
  "parsedYearMonth (isoDateParser 540) (d_date (deadlineOn ''notification'' ''TBD'')) = None
   \<and> getDeadlinesInMonth (isoDateParser 540) conferenceBroken (slot 2026 3)
       = [deadlineEntry conferenceBroken ''2026'' (deadlineOn ''camera-ready'' ''2026-03-10'')]
   \<and> getDeadlinesInMonth (isoDateParser 540)
        (conferenceWith [(''2026'', yearWith [deadlineOn ''submission'' [],
                                             deadlineOn ''camera-ready'' ''2026-03-10''])])
        (slot 2026 3)
       = [deadlineEntry conferenceBroken ''2026'' (deadlineOn ''camera-ready'' ''2026-03-10'')]
   \<and> snd (timelineColumns (isoDateParser 540) (months (generateMonths now2025 initialCalendar))
          conferenceBroken []) = []"
proof -
  let ?d = "deadlineOn ''notification'' ''TBD''"
  have h: "parsedYearMonth (isoDateParser 540) (d_date ?d) = None"
    by (simp add: deadlineOn_def parse_unparseable)
  have c1: "conferenceACM\<lparr>c_information := Some ([] @
              (''2026'', (yearWith [])\<lparr>yi_deadlines := Some ([deadlineOn ''submission'' []] @ ?d
                 # [deadlineOn ''camera-ready'' ''2026-03-10''])\<rparr>) # [])\<rparr> = conferenceBroken"
    by (simp add: conferenceBroken_def conferenceWith_def yearWith_def)
  have c2: "conferenceACM\<lparr>c_information := Some ([] @
              (''2026'', (yearWith [])\<lparr>yi_deadlines := Some ([deadlineOn ''submission'' []]
                 @ [deadlineOn ''camera-ready'' ''2026-03-10''])\<rparr>) # [])\<rparr>
      = conferenceWith [(''2026'', yearWith [deadlineOn ''submission'' [],
                                             deadlineOn ''camera-ready'' ''2026-03-10''])]"
    by (simp add: conferenceWith_def yearWith_def)
  have e: "getDeadlinesInMonth (isoDateParser 540)
        (conferenceWith [(''2026'', yearWith [deadlineOn ''submission'' [],
                                             deadlineOn ''camera-ready'' ''2026-03-10''])])
        (slot 2026 3)
       = [deadlineEntry conferenceBroken ''2026'' (deadlineOn ''camera-ready'' ''2026-03-10'')]"
    by (simp add: getDeadlinesInMonth_eq yearEntries_def informationOf_def conferenceWith_def
        conferenceBroken_def deadlinesInSlot_def deadlinesOf_def yearWith_def
        conferenceInSlot_def deadlineOn_def parse_unparseable parse_iso yearMonth_def slot_def
        deadlineEntry_def)
  from unparseable_dates_excluded [OF h, where conf = conferenceACM and before = "[]"
      and confYear = "''2026''" and yearInfo = "yearWith []"
      and ?ds1.0 = "[deadlineOn ''submission'' []]"
      and ?ds2.0 = "[deadlineOn ''camera-ready'' ''2026-03-10'']" and after = "[]"
      and month = "slot 2026 3" and conf' = conferenceBroken
      and ms = "months (generateMonths now2025 initialCalendar)" and console = "[]"]
    h e
  show ?thesis unfolding c1 c2 by simp
qed

text \<open>
  C6. A conference with a deadline whose date is empty, one whose date does not
  parse, and one dated 2026-03-10, rendered over the 24 columns of the window of
  2025-11-15: the two deadlines are left out of every column and the third gets its
  marker, but the console stays empty. No warning is logged for the dropped deadlines:
  the warning of createDeadlineMarker is never reached, for any conference
  (\<open>timelineColumns_never_warns\<close> above), because an entry that getDeadlinesInMonth
  emits has a date that parses.
\<close>

theorem invalid_dates_dropped_without_warning:
  "timelineColumns (isoDateParser 540) (months (generateMonths now2025 initialCalendar))
     conferenceBroken []
   = ([[], [], [], [], [], [], [], [], [], [], [],
       [\<lparr>m_className = ''deadline-marker deadline-camera-ready'', m_addPredicted = False,
         m_textContent = ''3/10''\<rparr>],
       [], [], [], [], [], [], [], [], [], [], [], []],
      [])"
  unfolding months_now2025
  by (simp add: timelineColumns_def monthCallback_def markerCallback_def
      getDeadlinesInMonth_def conferenceBroken_def conferenceWith_def yearWith_def
      deadlineOn_def yearCallback_def deadlineCallback_def deadlineEntry_def
      truthy_def newDateOf_def inMonth_def getFullYear_def getMonth_def
      getDate_def plusOne_def slot_def parse_iso_east isDigit_def digitValue_def
      daysInMonth_def createDeadlineMarker_def
      formatNumber_def numberToString_def digitsNat.simps orFalse_def Let_def)


text \<open>
  C9. When the start of the conference dates of a YearInfo falls in the month slot,
  the callback pushes the conference entry last, and getDeadlinesInMonth emits it. Its
  \<^verbatim>\<open>is_predicted\<close> is always a boolean; when the YearInfo's flag is absent or false
  it is false, and the popup shows the ``Predicted'' note exactly when the YearInfo's
  flag is true.
\<close>

theorem conference_entry_predicted_flag:
  assumes "c_information conf = Some information"
    and "(confYear, yearInfo) \<in> set information"
    and "yi_conference_dates yearInfo = Some dates"
    and "parsedYearMonth nd (cd_start dates) = Some (yearMonth month)"
  shows "yearCallback nd conf month acc (confYear, yearInfo)
           = acc @ map (deadlineEntry conf confYear) (deadlinesInSlot nd month yearInfo)
               @ [conferenceEntry conf confYear yearInfo dates]
         \<and> conferenceEntry conf confYear yearInfo dates \<in> set (getDeadlinesInMonth nd conf month)
         \<and> e_is_predicted (conferenceEntry conf confYear yearInfo dates) \<noteq> None
         \<and> (p_predicted (showDeadlineDetails (conferenceEntry conf confYear yearInfo dates))
              \<longleftrightarrow> yi_is_predicted yearInfo = Some True)
         \<and> (yi_is_predicted yearInfo = None \<or> yi_is_predicted yearInfo = Some False \<longrightarrow>
              e_is_predicted (conferenceEntry conf confYear yearInfo dates) = Some False
              \<and> \<not> p_predicted (showDeadlineDetails (conferenceEntry conf confYear yearInfo dates)))"
proof -
  from assms(3,4) have c: "conferenceInSlot nd conf month confYear yearInfo
      = [conferenceEntry conf confYear yearInfo dates]"
    by (simp add: conferenceInSlot_def)
  have 1: "yearCallback nd conf month acc (confYear, yearInfo)
           = acc @ map (deadlineEntry conf confYear) (deadlinesInSlot nd month yearInfo)
               @ [conferenceEntry conf confYear yearInfo dates]"
    by (simp add: yearCallback_eq c)
  from c have "conferenceEntry conf confYear yearInfo dates
      \<in> set (yearEntries nd conf month (confYear, yearInfo))"
    by (simp add: yearEntries_def)
  with assms(1,2) have 2: "conferenceEntry conf confYear yearInfo dates
      \<in> set (getDeadlinesInMonth nd conf month)"
    by (auto simp: getDeadlinesInMonth_eq informationOf_def)
  have 3: "e_is_predicted (conferenceEntry conf confYear yearInfo dates) \<noteq> None"
    by (simp add: conferenceEntry_def)
  have 4: "p_predicted (showDeadlineDetails (conferenceEntry conf confYear yearInfo dates))
              \<longleftrightarrow> yi_is_predicted yearInfo = Some True"
    by (simp add: showDeadlineDetails_def conferenceEntry_def orFalse_def Let_def
        split: option.splits)
  have 5: "yi_is_predicted yearInfo = None \<or> yi_is_predicted yearInfo = Some False \<longrightarrow>
              e_is_predicted (conferenceEntry conf confYear yearInfo dates) = Some False
              \<and> \<not> p_predicted (showDeadlineDetails (conferenceEntry conf confYear yearInfo dates))"
    by (auto simp: showDeadlineDetails_def conferenceEntry_def orFalse_def Let_def)
  from 1 2 3 4 5 show ?thesis by blast
qed

text \<open>
  C10. Without an \<^verbatim>\<open>information\<close> mapping, or when every YearInfo lacks both the
  deadlines list and a start of the conference dates, getDeadlinesInMonth returns the
  empty list for every slot. A YearInfo without a deadlines list contributes its
  conference entry only, one without a start of the conference dates its deadlines
  only. The function is total: there is no input on which it fails.
\<close>

theorem getDeadlinesInMonth_missing_structure:
  "(c_information conf = None \<longrightarrow> getDeadlinesInMonth nd conf month = [])
   \<and> ((\<forall>(confYear, yearInfo) \<in> set (informationOf conf).
          yi_deadlines yearInfo = None \<and> lacksConferenceStart yearInfo)
        \<longrightarrow> getDeadlinesInMonth nd conf month = [])
   \<and> (yi_deadlines yearInfo = None \<longrightarrow>
        yearCallback nd conf month acc (confYear, yearInfo)
          = acc @ conferenceInSlot nd conf month confYear yearInfo)
   \<and> (lacksConferenceStart yearInfo \<longrightarrow>
        yearCallback nd conf month acc (confYear, yearInfo)
          = acc @ map (deadlineEntry conf confYear) (deadlinesInSlot nd month yearInfo))"
proof -
  have l: "conferenceInSlot nd conf month y yi = []" if "lacksConferenceStart yi" for y yi
    using that
    by (auto simp: lacksConferenceStart_def conferenceInSlot_def parsedYearMonth_def truthy_def
        split: option.splits)
  have 1: "c_information conf = None \<longrightarrow> getDeadlinesInMonth nd conf month = []"
    by (simp add: getDeadlinesInMonth_def)
  have 2: "getDeadlinesInMonth nd conf month = []"
    if a: "\<forall>(confYear, yearInfo) \<in> set (informationOf conf).
          yi_deadlines yearInfo = None \<and> lacksConferenceStart yearInfo"
  proof -
    have "yearEntries nd conf month p = []" if "p \<in> set (informationOf conf)" for p
      using a that l [of "snd p" "fst p"]
      by (auto simp: yearEntries_def deadlinesInSlot_def deadlinesOf_def)
    then show ?thesis by (simp add: getDeadlinesInMonth_eq)
  qed
  have 3: "yi_deadlines yearInfo = None \<longrightarrow>
        yearCallback nd conf month acc (confYear, yearInfo)
          = acc @ conferenceInSlot nd conf month confYear yearInfo"
    by (simp add: yearCallback_eq deadlinesInSlot_def deadlinesOf_def)
  have 4: "lacksConferenceStart yearInfo \<longrightarrow>
        yearCallback nd conf month acc (confYear, yearInfo)
          = acc @ map (deadlineEntry conf confYear) (deadlinesInSlot nd month yearInfo)"
    by (simp add: yearCallback_eq l)
  from 1 2 3 4 show ?thesis by blast
qed

lemma parse_iso_east_June:
  "0 \<le> tz \<Longrightarrow> parsedYearMonth (isoDateParser tz) (Some ''2026-06-01'') = Some (2026, 6)"
  by (simp add: parsedYearMonth_def parse_iso_east isDigit_def digitValue_def daysInMonth_def)

theorem conference_entry_predicted_flag_witness:
  "c_information conferenceJune = Some [(''2026'', yearHeld ''2026-06-01'' ''2026-06-05'')]
   \<and> yi_conference_dates (yearHeld ''2026-06-01'' ''2026-06-05'')
       = Some \<lparr>cd_start = Some ''2026-06-01'', cd_end = Some ''2026-06-05''\<rparr>
   \<and> parsedYearMonth (isoDateParser 540) (Some ''2026-06-01'') = Some (yearMonth (slot 2026 6))
   \<and> yi_is_predicted (yearHeld ''2026-06-01'' ''2026-06-05'') = None
   \<and> yearCallback (isoDateParser 540) conferenceJune (slot 2026 6) []
        (''2026'', yearHeld ''2026-06-01'' ''2026-06-05'')
       = [conferenceEntry conferenceJune ''2026'' (yearHeld ''2026-06-01'' ''2026-06-05'')
            \<lparr>cd_start = Some ''2026-06-01'', cd_end = Some ''2026-06-05''\<rparr>]
   \<and> conferenceEntry conferenceJune ''2026'' (yearHeld ''2026-06-01'' ''2026-06-05'')
         \<lparr>cd_start = Some ''2026-06-01'', cd_end = Some ''2026-06-05''\<rparr>
       \<in> set (getDeadlinesInMonth (isoDateParser 540) conferenceJune (slot 2026 6))
   \<and> e_is_predicted (conferenceEntry conferenceJune ''2026''
         (yearHeld ''2026-06-01'' ''2026-06-05'')
         \<lparr>cd_start = Some ''2026-06-01'', cd_end = Some ''2026-06-05''\<rparr>) = Some False
   \<and> \<not> p_predicted (showDeadlineDetails (conferenceEntry conferenceJune ''2026''
         (yearHeld ''2026-06-01'' ''2026-06-05'')
         \<lparr>cd_start = Some ''2026-06-01'', cd_end = Some ''2026-06-05''\<rparr>))"
proof -
  let ?yi = "yearHeld ''2026-06-01'' ''2026-06-05''"
  let ?dates = "\<lparr>cd_start = Some ''2026-06-01'', cd_end = Some ''2026-06-05''\<rparr>"
  have 1: "c_information conferenceJune = Some [(''2026'', ?yi)]"
    by (simp add: conferenceJune_def conferenceWith_def)
  have 2: "(''2026'', ?yi) \<in> set [(''2026'', ?yi)]" by simp
  have 3: "yi_conference_dates ?yi = Some ?dates" by (simp add: yearHeld_def)
  have 4: "parsedYearMonth (isoDateParser 540) (cd_start ?dates) = Some (yearMonth (slot 2026 6))"
    by (simp add: parse_iso_east_June yearMonth_def slot_def)
  have 5: "yi_is_predicted ?yi = None" by (simp add: yearHeld_def)
  have 6: "deadlinesInSlot (isoDateParser 540) (slot 2026 6) ?yi = []"
    by (simp add: deadlinesInSlot_def deadlinesOf_def yearHeld_def)
  from conference_entry_predicted_flag [OF 1 2 3 4, of "[]"] 1 3 4 5 6
  show ?thesis by simp
qed

theorem getDeadlinesInMonth_missing_structure_witness:
  "c_information conferenceACM = None
   \<and> getDeadlinesInMonth (isoDateParser 540) conferenceACM (slot 2026 6) = []
   \<and> informationOf conferenceBare
       = [(''2026'', \<lparr>yi_deadlines = None, yi_conference_dates = None, yi_is_predicted = None\<rparr>),
          (''2027'', \<lparr>yi_deadlines = None,
                      yi_conference_dates = Some \<lparr>cd_start = None, cd_end = Some ''2027-06-05''\<rparr>,
                      yi_is_predicted = Some True\<rparr>)]
   \<and> lacksConferenceStart
        \<lparr>yi_deadlines = None, yi_conference_dates = None, yi_is_predicted = None\<rparr>
   \<and> lacksConferenceStart
        \<lparr>yi_deadlines = None,
         yi_conference_dates = Some \<lparr>cd_start = None, cd_end = Some ''2027-06-05''\<rparr>,
         yi_is_predicted = Some True\<rparr>
   \<and> getDeadlinesInMonth (isoDateParser 540) conferenceBare (slot 2027 6) = []
   \<and> yi_deadlines (yearHeld ''2026-06-01'' ''2026-06-05'') = None
   \<and> yearCallback (isoDateParser 540) conferenceJune (slot 2026 6) []
        (''2026'', yearHeld ''2026-06-01'' ''2026-06-05'')
       = conferenceInSlot (isoDateParser 540) conferenceJune (slot 2026 6) ''2026''
           (yearHeld ''2026-06-01'' ''2026-06-05'')
   \<and> lacksConferenceStart (yearWith [deadlineOn ''submission'' ''2026-03-10''])
   \<and> yearCallback (isoDateParser 540) conferenceJune (slot 2026 3) []
        (''2026'', yearWith [deadlineOn ''submission'' ''2026-03-10''])
       = [deadlineEntry conferenceJune ''2026'' (deadlineOn ''submission'' ''2026-03-10'')]"
proof -
  have 1: "c_information conferenceACM = None" by (simp add: conferenceACM_def)
  have 2: "informationOf conferenceBare
       = [(''2026'', \<lparr>yi_deadlines = None, yi_conference_dates = None, yi_is_predicted = None\<rparr>),
          (''2027'', \<lparr>yi_deadlines = None,
                      yi_conference_dates = Some \<lparr>cd_start = None, cd_end = Some ''2027-06-05''\<rparr>,
                      yi_is_predicted = Some True\<rparr>)]"
    by (simp add: informationOf_def conferenceBare_def conferenceWith_def)
  have 3: "lacksConferenceStart
        \<lparr>yi_deadlines = None, yi_conference_dates = None, yi_is_predicted = None\<rparr>"
    "lacksConferenceStart
        \<lparr>yi_deadlines = None,
         yi_conference_dates = Some \<lparr>cd_start = None, cd_end = Some ''2027-06-05''\<rparr>,
         yi_is_predicted = Some True\<rparr>"
    "lacksConferenceStart (yearWith [deadlineOn ''submission'' ''2026-03-10''])"
    by (simp_all add: lacksConferenceStart_def truthy_def yearWith_def)
  have 4: "yi_deadlines (yearHeld ''2026-06-01'' ''2026-06-05'') = None"
    by (simp add: yearHeld_def)
  have 5: "deadlinesInSlot (isoDateParser 540) (slot 2026 3)
             (yearWith [deadlineOn ''submission'' ''2026-03-10''])
           = [deadlineOn ''submission'' ''2026-03-10'']"
    by (simp add: deadlinesInSlot_def deadlinesOf_def yearWith_def deadlineOn_def parse_iso
        yearMonth_def slot_def)
  from getDeadlinesInMonth_missing_structure
      [of conferenceACM "isoDateParser 540" "slot 2026 6"
          "yearHeld ''2026-06-01'' ''2026-06-05''" "[]" "''2026''"]
    getDeadlinesInMonth_missing_structure
      [of conferenceBare "isoDateParser 540" "slot 2027 6"
          "yearWith [deadlineOn ''submission'' ''2026-03-10'']" "[]" "''2026''"]
    getDeadlinesInMonth_missing_structure
      [of conferenceJune "isoDateParser 540" "slot 2026 6"
          "yearHeld ''2026-06-01'' ''2026-06-05''" "[]" "''2026''"]
    getDeadlinesInMonth_missing_structure
      [of conferenceJune "isoDateParser 540" "slot 2026 3"
          "yearWith [deadlineOn ''submission'' ''2026-03-10'']" "[]" "''2026''"]
    1 2 3 4 5
  show ?thesis by simp
qed

theorem getDeadlinesInMonth_missing_part_counterexample:
  "yi_deadlines (yearHeld ''2026-06-01'' ''2026-06-05'') = None
   \<and> getDeadlinesInMonth (isoDateParser 540) conferenceJune (slot 2026 6)
       = [conferenceEntry conferenceJune ''2026'' (yearHeld ''2026-06-01'' ''2026-06-05'')
            \<lparr>cd_start = Some ''2026-06-01'', cd_end = Some ''2026-06-05''\<rparr>]
   \<and> getDeadlinesInMonth (isoDateParser 540) conferenceJune (slot 2026 6) \<noteq> []
   \<and> yi_conference_dates (yearWith [deadlineOn ''submission'' ''2026-03-10'']) = None
   \<and> getDeadlinesInMonth (isoDateParser 540)
        (conferenceWith [(''2026'', yearWith [deadlineOn ''submission'' ''2026-03-10''])])
        (slot 2026 3) \<noteq> []"
  using conference_dates_east_of_UTC [of 540]
  by (simp add: yearHeld_def yearWith_def getDeadlinesInMonth_eq informationOf_def
      conferenceWith_def yearEntries_def deadlinesInSlot_def deadlinesOf_def deadlineOn_def
      parse_iso yearMonth_def slot_def)

subsection \<open>The store\<close>

lemma unchangedBelow_refl: "unchangedBelow h h"
  by (simp add: unchangedBelow_def)

lemma unchangedBelow_trans:
  "unchangedBelow h1 h2 \<Longrightarrow> unchangedBelow h2 h3 \<Longrightarrow> unchangedBelow h1 h3"
  by (auto simp: unchangedBelow_def)

lemma push_store:
  "unchangedBelow (fst state) (fst (push e state))"
  "limit (fst (push e state)) = Suc (limit (fst state))"
  "snd (push e state) = snd state @ [limit (fst state)]"
  "objectAt (fst (push e state)) (limit (fst state)) = Some (EntryObject e)"
  by (simp_all add: push_def allocate_def unchangedBelow_def Let_def)

lemma pushAll_Nil: "pushAll [] state = state"
  by (simp add: pushAll_def)

lemma pushAll_Cons: "pushAll (e # es) state = pushAll es (push e state)"
  by (simp add: pushAll_def)

lemma pushAll_append: "pushAll (es @ es') state = pushAll es' (pushAll es state)"
  by (simp add: pushAll_def)

lemma upt_first: "[l ..< Suc (l + n)] = l # [Suc l ..< Suc (l + n)]"
  by (simp add: upt_conv_Cons)

lemma pushAll_store:
  "unchangedBelow (fst state) (fst (pushAll es state))
   \<and> limit (fst (pushAll es state)) = limit (fst state) + length es
   \<and> snd (pushAll es state) = snd state @ [limit (fst state) ..< limit (fst state) + length es]
   \<and> map (objectAt (fst (pushAll es state))) [limit (fst state) ..< limit (fst state) + length es]
       = map (\<lambda>e. Some (EntryObject e)) es"
proof (induction es arbitrary: state)
  case Nil
  then show ?case by (simp add: pushAll_Nil unchangedBelow_refl)
next
  case (Cons e es)
  let ?s = "push e state"
  let ?h' = "fst (pushAll es ?s)"
  note IH = Cons.IH [of ?s]
  have u: "unchangedBelow (fst state) ?h'"
    using IH push_store(1) [of state e] unchangedBelow_trans by blast
  have l: "limit ?h' = limit (fst state) + length (e # es)"
    using IH by (simp add: push_store(2))
  have r: "snd (pushAll es ?s)
      = snd state @ [limit (fst state) ..< limit (fst state) + length (e # es)]"
    using IH by (simp add: push_store(2,3) upt_first del: upt_Suc)
  have "objectAt ?h' (limit (fst state)) = Some (EntryObject e)"
  proof -
    from IH have "unchangedBelow (fst ?s) ?h'" by blast
    then have "objectAt ?h' (limit (fst state)) = objectAt (fst ?s) (limit (fst state))"
      by (simp add: unchangedBelow_def push_store(2))
    then show ?thesis by (simp add: push_store(4))
  qed
  moreover from IH have "map (objectAt ?h')
       [Suc (limit (fst state)) ..< Suc (limit (fst state)) + length es]
       = map (\<lambda>e. Some (EntryObject e)) es"
    by (simp add: push_store(2))
  ultimately have m: "map (objectAt ?h') [limit (fst state) ..< limit (fst state) + length (e # es)]
       = map (\<lambda>e. Some (EntryObject e)) (e # es)"
    by (simp add: upt_first del: upt_Suc)
  from u l r m show ?case by (simp add: pushAll_Cons)
qed

lemma representsDeadline_unchanged:
  "unchangedBelow h h' \<Longrightarrow> representsDeadline h r d \<Longrightarrow> representsDeadline h' r d"
  by (auto simp: unchangedBelow_def representsDeadline_def)

lemma representsYear_unchanged:
  assumes "unchangedBelow h h'" "representsYear h r yi"
  shows "representsYear h' r yi"
proof -
  from assms(2) obtain y where r: "r < limit h" and o: "objectAt h r = Some (YearInfoObject y)"
    and d: "rel_option (list_all2 (representsDeadline h)) (yi_deadlines y) (yi_deadlines yi)"
    and rest: "yi_conference_dates y = yi_conference_dates yi"
      "yi_is_predicted y = yi_is_predicted yi"
    by (auto simp: representsYear_def split: option.splits jsobject.splits)
  from assms(1) r o have o': "r < limit h'" "objectAt h' r = Some (YearInfoObject y)"
    by (auto simp: unchangedBelow_def)
  from d have "rel_option (list_all2 (representsDeadline h')) (yi_deadlines y) (yi_deadlines yi)"
    by (rule option.rel_mono_strong)
      (erule list.rel_mono_strong, rule representsDeadline_unchanged [OF assms(1)])
  with o' rest show ?thesis by (simp add: representsYear_def)
qed

lemma representsProperty_unchanged:
  "unchangedBelow h h' \<Longrightarrow> representsProperty h p q \<Longrightarrow> representsProperty h' p q"
  by (auto simp: representsProperty_def intro: representsYear_unchanged)

lemma represents_unchanged:
  assumes "unchangedBelow h h'" "represents h r conf"
  shows "represents h' r conf"
proof -
  from assms(2) obtain c where r: "r < limit h" and o: "objectAt h r = Some (ConferenceObject c)"
    and i: "rel_option (list_all2 (representsProperty h)) (c_information c) (c_information conf)"
    and rest: "c_name c = c_name conf" "c_short_name c = c_short_name conf"
      "c_rank c = c_rank conf" "c_url c = c_url conf" "c_theme c = c_theme conf"
      "c_themes c = c_themes conf" "c_flagship c = c_flagship conf"
    by (auto simp: represents_def split: option.splits jsobject.splits)
  from assms(1) r o have o': "r < limit h'" "objectAt h' r = Some (ConferenceObject c)"
    by (auto simp: unchangedBelow_def)
  from i have "rel_option (list_all2 (representsProperty h')) (c_information c) (c_information conf)"
    by (rule option.rel_mono_strong)
      (erule list.rel_mono_strong, rule representsProperty_unchanged [OF assms(1)])
  with o' rest show ?thesis by (simp add: represents_def)
qed

lemma foldl_deadlineCallbackOn:
  assumes "list_all2 (representsDeadline h) rs ds" "unchangedBelow h (fst state)"
  shows "foldl (deadlineCallbackOn nd c month y) (Some state) rs
     = Some (pushAll (map (deadlineEntry c y)
               (filter (\<lambda>d. parsedYearMonth nd (d_date d) = Some (yearMonth month)) ds)) state)"
  using assms
proof (induction rs ds arbitrary: state rule: list_all2_induct)
  case Nil
  then show ?case by (simp add: pushAll_Nil)
next
  case (Cons r rs d ds)
  from Cons.hyps(1) Cons.prems have o: "objectAt (fst state) r = Some (DeadlineObject d)"
    by (auto simp: representsDeadline_def unchangedBelow_def)
  show ?case
  proof (cases "parsedYearMonth nd (d_date d) = Some (yearMonth month)")
    case True
    then have t: "truthy (d_date d) \<and> inMonth (newDateOf nd (d_date d)) month"
      by (simp add: inMonth_parsed)
    have "unchangedBelow h (fst (push (deadlineEntry c y d) state))"
      using Cons.prems push_store(1) unchangedBelow_trans by blast
    from Cons.IH [OF this] o t True show ?thesis
      by (simp add: deadlineCallbackOn_def Let_def pushAll_Cons)
  next
    case False
    then have t: "\<not> (truthy (d_date d) \<and> inMonth (newDateOf nd (d_date d)) month)"
      by (simp add: inMonth_parsed)
    from Cons.IH [OF Cons.prems] o t False show ?thesis
      by (auto simp: deadlineCallbackOn_def Let_def)
  qed
qed

lemma yearCallbackOn_eq:
  assumes "representsProperty h p q" "unchangedBelow h (fst state)"
    and "c_short_name c = c_short_name conf"
  shows "yearCallbackOn nd c month (Some state) p
     = Some (pushAll (yearEntries nd conf month q) state)"
proof -
  obtain y r where p: "p = (y, r)" by (cases p)
  obtain y' yi where q: "q = (y', yi)" by (cases q)
  from assms(1) p q have y: "y' = y" and ry: "representsYear h r yi"
    by (simp_all add: representsProperty_def)
  from ry obtain yo where r: "r < limit h" and o: "objectAt h r = Some (YearInfoObject yo)"
    and d: "rel_option (list_all2 (representsDeadline h)) (yi_deadlines yo) (yi_deadlines yi)"
    and cd: "yi_conference_dates yo = yi_conference_dates yi"
    and ip: "yi_is_predicted yo = yi_is_predicted yi"
    by (auto simp: representsYear_def split: option.splits jsobject.splits)
  from assms(2) r o have o': "objectAt (fst state) r = Some (YearInfoObject yo)"
    by (simp add: unchangedBelow_def)
  let ?ds = "map (deadlineEntry conf y) (deadlinesInSlot nd month yi)"
  have run1: "(case yi_deadlines yo of None \<Rightarrow> Some state
               | Some rs \<Rightarrow> foldl (deadlineCallbackOn nd c month y) (Some state) rs)
             = Some (pushAll ?ds state)"
  proof (cases "yi_deadlines yo")
    case None
    with d have "yi_deadlines yi = None" by (cases "yi_deadlines yi") simp_all
    with None show ?thesis
      by (simp add: deadlinesInSlot_def deadlinesOf_def pushAll_Nil)
  next
    case (Some rs)
    with d obtain ds where ds: "yi_deadlines yi = Some ds"
      and l: "list_all2 (representsDeadline h) rs ds"
      by (cases "yi_deadlines yi") simp_all
    have "deadlineEntry c y = deadlineEntry conf y"
      by (rule ext) (simp add: deadlineEntry_def assms(3))
    with foldl_deadlineCallbackOn [OF l assms(2), of nd c month y] Some ds
    show ?thesis
      by (simp add: deadlinesInSlot_def deadlinesOf_def)
  qed
  show ?thesis
  proof (cases "yi_conference_dates yi")
    case None
    with cd run1 o' show ?thesis
      by (simp add: p q y yearCallbackOn_def Let_def yearEntries_def conferenceInSlot_def
          pushAll_append pushAll_Nil)
  next
    case (Some dates)
    show ?thesis
    proof (cases "parsedYearMonth nd (cd_start dates) = Some (yearMonth month)")
      case True
      then have t: "truthy (cd_start dates) \<and> inMonth (newDateOf nd (cd_start dates)) month"
        by (simp add: inMonth_parsed)
      have "conferenceEntry c y yo dates = conferenceEntry conf y yi dates"
        by (simp add: conferenceEntry_def assms(3) ip)
      with Some cd run1 o' t True show ?thesis
        by (simp add: p q y yearCallbackOn_def Let_def yearEntries_def conferenceInSlot_def
            pushAll_append pushAll_Cons pushAll_Nil)
    next
      case False
      then have t: "\<not> (truthy (cd_start dates) \<and> inMonth (newDateOf nd (cd_start dates)) month)"
        by (simp add: inMonth_parsed)
      from Some cd run1 o' t False show ?thesis
        by (auto simp: p q y yearCallbackOn_def Let_def yearEntries_def conferenceInSlot_def
            pushAll_append pushAll_Nil)
    qed
  qed
qed

lemma foldl_yearCallbackOn:
  assumes "list_all2 (representsProperty h) ps qs" "unchangedBelow h (fst state)"
    and "c_short_name c = c_short_name conf"
  shows "foldl (yearCallbackOn nd c month) (Some state) ps
     = Some (pushAll (concat (map (yearEntries nd conf month) qs)) state)"
  using assms(1,2)
proof (induction ps qs arbitrary: state rule: list_all2_induct)
  case Nil
  then show ?case by (simp add: pushAll_Nil)
next
  case (Cons p ps q qs)
  have "unchangedBelow h (fst (pushAll (yearEntries nd conf month q) state))"
    using Cons.prems pushAll_store unchangedBelow_trans by blast
  from Cons.IH [OF this] yearCallbackOn_eq [OF Cons.hyps(1) Cons.prems assms(3)]
  show ?case by (simp add: pushAll_append)
qed

lemma getDeadlinesInMonthOn_eq:
  assumes "represents h r conf"
  shows "getDeadlinesInMonthOn nd h r month
     = Some (pushAll (getDeadlinesInMonth nd conf month) (h, []))"
proof -
  from assms obtain c where o: "objectAt h r = Some (ConferenceObject c)"
    and i: "rel_option (list_all2 (representsProperty h)) (c_information c) (c_information conf)"
    and sn: "c_short_name c = c_short_name conf"
    by (auto simp: represents_def split: option.splits jsobject.splits)
  show ?thesis
  proof (cases "c_information c")
    case None
    with i have "c_information conf = None" by (cases "c_information conf") simp_all
    with None o show ?thesis
      by (simp add: getDeadlinesInMonthOn_def getDeadlinesInMonth_def pushAll_Nil)
  next
    case (Some ps)
    with i obtain qs where qs: "c_information conf = Some qs"
      and l: "list_all2 (representsProperty h) ps qs"
      by (cases "c_information conf") simp_all
    from foldl_yearCallbackOn [OF l _ sn, of "(h, [])" nd month] Some qs o show ?thesis
      by (simp add: getDeadlinesInMonthOn_def getDeadlinesInMonth_eq informationOf_def
          unchangedBelow_refl)
  qed
qed

lemma filterCallback_same_fields:
  assumes "represents h r conf" "objectAt h r = Some (ConferenceObject c)"
  shows "filterCallback cf c = filterCallback cf conf"
proof -
  from assms have f: "c_name c = c_name conf" "c_short_name c = c_short_name conf"
    "c_theme c = c_theme conf" "c_themes c = c_themes conf"
    by (simp_all add: represents_def)
  then have "confThemesOf c = confThemesOf conf"
    by (simp add: confThemesOf_def split: option.splits)
  with f show ?thesis by (simp add: filterCallback_def)
qed

lemma filterOn_represents:
  assumes "list_all2 (represents h) rs confs"
  shows "\<exists>kept. filterOn h cf rs = Some kept \<and> subseq kept rs
           \<and> list_all2 (represents h) kept (filter (filterCallback cf) confs)"
  using assms
proof (induction rs confs rule: list_all2_induct)
  case Nil
  then show ?case by simp
next
  case (Cons r rs conf confs)
  from Cons.hyps(1) obtain c where o: "objectAt h r = Some (ConferenceObject c)"
    by (auto simp: represents_def split: option.splits jsobject.splits)
  from Cons.IH obtain kept where k: "filterOn h cf rs = Some kept" "subseq kept rs"
    "list_all2 (represents h) kept (filter (filterCallback cf) confs)" by blast
  from filterCallback_same_fields [OF Cons.hyps(1) o]
  have f: "filterCallback cf c = filterCallback cf conf" .
  show ?case
    using o k f Cons.hyps(1) by (auto simp: subseq_Cons')
qed


text \<open>
  C8. On a store that holds the conference list, applyFilters returns the store as it
  was given: the filtered list is made of references of the conference list, in their
  order, to the conferences that pass the filter. getDeadlinesInMonth returns a store
  in which every reference of the old store holds what it held, so the conference, its
  years and its deadlines are represented as before; the entries it returns are the
  references allocated during the call, all of them new, and they hold the entries that
  the function on values computes.
\<close>

theorem source_records_unchanged:
  assumes "list_all2 (represents h) (conferenceRefs cal) confs"
    and "represents h r conf"
  shows "(\<exists>kept. applyFiltersOn h cal = Some (h, cal\<lparr>filteredRefs := kept\<rparr>)
            \<and> subseq kept (conferenceRefs cal)
            \<and> list_all2 (represents h) kept
                (filteredConferences (applyFilters
                   (calendarOf confs (f_themes (filtersOf cal)) (f_search (filtersOf cal))))))
         \<and> (\<exists>h' entries. getDeadlinesInMonthOn nd h r month = Some (h', entries)
            \<and> unchangedBelow h h'
            \<and> represents h' r conf
            \<and> list_all2 (represents h') (conferenceRefs cal) confs
            \<and> entries = [limit h ..< limit h']
            \<and> map (objectAt h') entries
                = map (\<lambda>e. Some (EntryObject e)) (getDeadlinesInMonth nd conf month))"
proof
  from filterOn_represents [OF assms(1), of "filtersOf cal"]
  obtain kept where k: "filterOn h (filtersOf cal) (conferenceRefs cal) = Some kept"
    "subseq kept (conferenceRefs cal)"
    "list_all2 (represents h) kept (filter (filterCallback (filtersOf cal)) confs)"
    by blast
  have "filteredConferences (applyFilters
          (calendarOf confs (f_themes (filtersOf cal)) (f_search (filtersOf cal))))
        = filter (filterCallback (filtersOf cal)) confs"
    by (cases "filtersOf cal") (simp add: applyFilters_def calendarOf_def)
  with k show "\<exists>kept. applyFiltersOn h cal = Some (h, cal\<lparr>filteredRefs := kept\<rparr>)
            \<and> subseq kept (conferenceRefs cal)
            \<and> list_all2 (represents h) kept
                (filteredConferences (applyFilters
                   (calendarOf confs (f_themes (filtersOf cal)) (f_search (filtersOf cal)))))"
    by (auto simp: applyFiltersOn_def)
next
  let ?es = "getDeadlinesInMonth nd conf month"
  let ?run = "pushAll ?es (h, [])"
  have run: "getDeadlinesInMonthOn nd h r month = Some (fst ?run, snd ?run)"
    by (simp add: getDeadlinesInMonthOn_eq [OF assms(2)])
  from pushAll_store [of "(h, [])" ?es]
  have u: "unchangedBelow h (fst ?run)"
    and l: "limit (fst ?run) = limit h + length ?es"
    and e: "snd ?run = [limit h ..< limit h + length ?es]"
    and m: "map (objectAt (fst ?run)) [limit h ..< limit h + length ?es]
              = map (\<lambda>e. Some (EntryObject e)) ?es"
    by simp_all
  from u assms(2) have r: "represents (fst ?run) r conf"
    by (rule represents_unchanged)
  from assms(1) have rs: "list_all2 (represents (fst ?run)) (conferenceRefs cal) confs"
    by (rule list.rel_mono_strong) (rule represents_unchanged [OF u])
  from run u r rs l e m
  show "\<exists>h' entries. getDeadlinesInMonthOn nd h r month = Some (h', entries)
            \<and> unchangedBelow h h'
            \<and> represents h' r conf
            \<and> list_all2 (represents h') (conferenceRefs cal) confs
            \<and> entries = [limit h ..< limit h']
            \<and> map (objectAt h') entries
                = map (\<lambda>e. Some (EntryObject e)) (getDeadlinesInMonth nd conf month)"
    by simp
qed

lemma represents_example: "represents exampleStore 5 conferenceBusy"
  by (simp add: represents_def exampleStore_def conferenceBusy_def conferenceWith_def
      conferenceACM_def representsProperty_def representsYear_def yearWith_def yearHeld_def
      representsDeadline_def)

lemma busy_March:
  "getDeadlinesInMonth (isoDateParser 540) conferenceBusy (slot 2026 3)
     = [deadlineEntry conferenceBusy ''2026'' (deadlineOn ''submission'' ''2026-03-10''),
        deadlineEntry conferenceBusy ''2026'' (deadlineOn ''abstract'' ''2026-03-03'')]"
proof -
  have p: "parsedYearMonth (isoDateParser 540) (Some s)
      = (if s = [] then None
         else map_option (\<lambda>d. (fullYear d, monthIndex d + 1)) (parseDateOnly s))" for s
    by (simp add: parsedYearMonth_def parse_iso_east)
  show ?thesis
    by (simp add: getDeadlinesInMonth_eq yearEntries_def informationOf_def conferenceBusy_def
        conferenceWith_def deadlinesInSlot_def deadlinesOf_def yearWith_def yearHeld_def
        conferenceInSlot_def deadlineOn_def p isDigit_def digitValue_def daysInMonth_def
        yearMonth_def slot_def)
qed

theorem source_records_unchanged_witness:
  "list_all2 (represents exampleStore) (conferenceRefs exampleCalendar) [conferenceBusy]
   \<and> represents exampleStore 5 conferenceBusy
   \<and> applyFiltersOn exampleStore exampleCalendar
       = Some (exampleStore, exampleCalendar\<lparr>filteredRefs := [5]\<rparr>)
   \<and> (case getDeadlinesInMonthOn (isoDateParser 540) exampleStore 5 (slot 2026 3) of
         None \<Rightarrow> False
       | Some (h', entries) \<Rightarrow>
           entries = [6, 7]
           \<and> map (objectAt h') [0, 1, 2, 3, 4, 5] = map (objectAt exampleStore) [0, 1, 2, 3, 4, 5]
           \<and> represents h' 5 conferenceBusy
           \<and> map (objectAt h') entries
               = [Some (EntryObject (deadlineEntry conferenceBusy ''2026''
                                       (deadlineOn ''submission'' ''2026-03-10''))),
                  Some (EntryObject (deadlineEntry conferenceBusy ''2026''
                                       (deadlineOn ''abstract'' ''2026-03-03'')))])"
proof -
  have 1: "list_all2 (represents exampleStore) (conferenceRefs exampleCalendar) [conferenceBusy]"
    by (simp add: exampleCalendar_def represents_example)
  have 2: "applyFiltersOn exampleStore exampleCalendar
       = Some (exampleStore, exampleCalendar\<lparr>filteredRefs := [5]\<rparr>)"
    by (simp add: applyFiltersOn_def exampleCalendar_def exampleStore_def filterCallback_def
        confThemesOf_def hasTheme_def orEmpty_def toLowerCase_def toLowerChar_def isUpper_def
        Let_def)
  from source_records_unchanged [OF 1 represents_example, of "isoDateParser 540" "slot 2026 3"]
  obtain h' entries where
    run: "getDeadlinesInMonthOn (isoDateParser 540) exampleStore 5 (slot 2026 3)
            = Some (h', entries)"
    and u: "unchangedBelow exampleStore h'"
    and r: "represents h' 5 conferenceBusy"
    and e: "entries = [limit exampleStore ..< limit h']"
    and m: "map (objectAt h') entries
        = map (\<lambda>e. Some (EntryObject e))
            (getDeadlinesInMonth (isoDateParser 540) conferenceBusy (slot 2026 3))"
    by blast
  from m have "length entries = 2" unfolding busy_March
    by (metis length_map length_Cons list.size(3) One_nat_def Suc_1)
  with e have l: "limit h' = 8" by (simp add: exampleStore_def)
  with e have e': "entries = [6, 7]"
    by (simp add: exampleStore_def upt_rec)
  from u have "map (objectAt h') [0, 1, 2, 3, 4, 5] = map (objectAt exampleStore) [0, 1, 2, 3, 4, 5]"
    by (simp add: unchangedBelow_def exampleStore_def)
  with 1 2 run r e' m represents_example show ?thesis
    by (simp add: busy_March)
qed

end
